theory Spec2Isabelle
  imports Complex_Main "HOL-Library.Sublist" "HOL-Library.Multiset"
begin

section \<open>Values decoded from response bodies\<close>

text \<open>
  The values that \<^verbatim>\<open>resp.json()\<close> can return, which are also the Python values the
  pipeline handles: \<^verbatim>\<open>None\<close> is \<open>JNull\<close>, a \<^verbatim>\<open>dict\<close> is an association list
  holding each key once, a non-integral number is carried as a real (the program
  only tests it for zero and passes it on).
\<close>

datatype json =
    JNull
  | JBool bool
  | JInt int
  | JFloat real
  | JStr string
  | JArr "json list"
  | JObj "(string \<times> json) list"

text \<open>
  The exceptions (all subclasses of \<^verbatim>\<open>Exception\<close>) that occur in a run. The first
  three are what \<^verbatim>\<open>Session.post\<close> raises when no response is obtained.
\<close>

datatype exn =
    ConnectionError
  | Timeout
  | RetryError
  | HTTPError int
  | JSONDecodeError
  | ValueError string
  | AttributeError
  | TypeError
  | UnboundLocalError string

text \<open>Truth value of an object, as tested by \<^verbatim>\<open>not token\<close>.\<close>

fun truthy :: "json \<Rightarrow> bool" where
  "truthy JNull = False"
| "truthy (JBool b) = b"
| "truthy (JInt i) = (i \<noteq> 0)"
| "truthy (JFloat x) = (x \<noteq> 0)"
| "truthy (JStr s) = (s \<noteq> [])"
| "truthy (JArr xs) = (xs \<noteq> [])"
| "truthy (JObj kvs) = (kvs \<noteq> [])"

text \<open>
  \<^verbatim>\<open>x.get(k, default)\<close>: only a \<^verbatim>\<open>dict\<close> has the method; on any other object the
  attribute lookup raises.
\<close>

definition dict_get :: "json \<Rightarrow> string \<Rightarrow> json \<Rightarrow> exn + json" where
  "dict_get d k dflt =
     (case d of
        JObj kvs \<Rightarrow> Inr (case map_of kvs k of Some v \<Rightarrow> v | None \<Rightarrow> dflt)
      | _ \<Rightarrow> Inl AttributeError)"

text \<open>
  The elements a \<^verbatim>\<open>for\<close> loop draws from an object: the items of a list, the keys
  of a dict, the characters of a string; any other object is not iterable.
\<close>

definition py_iter :: "json \<Rightarrow> exn + json list" where
  "py_iter v =
     (case v of
        JArr xs \<Rightarrow> Inr xs
      | JObj kvs \<Rightarrow> Inr (map (\<lambda>kv. JStr (fst kv)) kvs)
      | JStr s \<Rightarrow> Inr (map (\<lambda>c. JStr [c]) s)
      | _ \<Rightarrow> Inl TypeError)"

text \<open>
  Library functions the pipeline calls and that are not part of the repository:
  \<open>md5_hexdigest s\<close> is \<^verbatim>\<open>hashlib.md5(s.encode()).hexdigest()\<close>, and \<open>py_repr\<close> is
  what \<^verbatim>\<open>str\<close> gives on floats, lists and dicts.
\<close>

record lib =
  md5_hexdigest :: "string \<Rightarrow> string"
  py_repr :: "json \<Rightarrow> string"

fun digits :: "nat \<Rightarrow> string" where
  "digits n = (if n < 10 then [''0123456789'' ! n]
               else digits (n div 10) @ [''0123456789'' ! (n mod 10)])"

declare digits.simps [simp del]

definition int_str :: "int \<Rightarrow> string" where
  "int_str i = (if i < 0 then ''-'' @ digits (nat (- i)) else digits (nat i))"

text \<open>\<^verbatim>\<open>str(v)\<close>, also what an f-string interpolates.\<close>

definition py_str :: "lib \<Rightarrow> json \<Rightarrow> string" where
  "py_str L v =
     (case v of
        JNull \<Rightarrow> ''None''
      | JBool b \<Rightarrow> (if b then ''True'' else ''False'')
      | JInt i \<Rightarrow> int_str i
      | JStr s \<Rightarrow> s
      | _ \<Rightarrow> py_repr L v)"

section \<open>Requests, responses and the remote service\<close>

definition BASE :: string where
  "BASE = ''https://www.bounty-news.com/api''"

definition LOGIN :: string where
  "LOGIN = BASE @ ''/member/login''"

definition DAILY_INFO :: string where
  "DAILY_INFO = BASE @ ''/memberReadingReward/info''"

definition DAILY_CLAIM :: string where
  "DAILY_CLAIM = BASE @ ''/memberReadingReward/getAward''"

text \<open>
  A response: its status code, its text, and what \<^verbatim>\<open>resp.json()\<close> returns
  (\<open>None\<close> when the body does not parse and the call raises).
\<close>

record response =
  status_code :: int
  resp_text :: string
  decoded :: "json option"

record request =
  url :: string
  payload :: json
  rq_headers :: "(string \<times> string) list"
  rq_timeout :: int

text \<open>
  What a call of \<^verbatim>\<open>sess.post\<close> comes back with, retries included: an exception,
  or a response. The remote service of one pipeline execution is the sequence of
  these, one per call in the order the calls are made.
\<close>

datatype reply = Raised exn | Responded response

type_synonym service = "nat \<Rightarrow> reply"

record config =
  sales_id :: string
  timeout :: int
  retries :: int
  backoff :: real
  password :: string

record credential =
  cred_phone :: string
  cred_code :: string

record retry_policy =
  total :: int
  backoff_factor :: real
  status_forcelist :: "int list"
  allowed_methods :: "string list"

record session =
  headers :: "(string \<times> string) list"
  max_retries :: retry_policy

text \<open>\<^verbatim>\<open>headers.update\<close> for one key: replace the value in place, or append.\<close>

fun header_set :: "string \<Rightarrow> string \<Rightarrow> (string \<times> string) list \<Rightarrow> (string \<times> string) list" where
  "header_set k v [] = [(k, v)]"
| "header_set k v ((k', v') # hs) =
     (if k = k' then (k, v) # hs else (k', v') # header_set k v hs)"

definition update_headers ::
    "(string \<times> string) list \<Rightarrow> (string \<times> string) list \<Rightarrow> (string \<times> string) list" where
  "update_headers new hs = fold (\<lambda>kv. header_set (fst kv) (snd kv)) new hs"

definition make_session :: "config \<Rightarrow> session" where
  "make_session cfg =
     \<lparr> headers = update_headers
         [(''Content-Type'', ''application/json''),
          (''Accept'', ''application/json''),
          (''salesPersonId'', sales_id cfg)] [],
       max_retries = \<lparr> total = retries cfg, backoff_factor = backoff cfg,
                       status_forcelist = [429, 500, 502, 503, 504],
                       allowed_methods = [''GET'', ''POST''] \<rparr> \<rparr>"

section \<open>The account outcome\<close>

text \<open>
  An error record. The keys \<^verbatim>\<open>error\<close> and \<^verbatim>\<open>trace\<close> are both renderings of the
  exception caught, which is kept here as it is; \<^verbatim>\<open>response\<close> is present only in
  the records of the claim calls.
\<close>

record error_record =
  stage :: string
  error :: exn
  err_response :: "json option"

record claim_response =
  tier :: json
  cr_status_code :: int
  cr_response :: json

text \<open>The dict \<^verbatim>\<open>out\<close>; a key that was never set is \<open>None\<close>.\<close>

record outcome =
  phone :: string
  ts :: string
  errors :: "error_record list"
  login_status_code :: "int option"
  login_response :: "json option"
  info_status_code :: "int option"
  info_response :: "json option"
  claim_responses :: "claim_response list option"
  claimed_tiers :: "json list option"

section \<open>Statements that may raise, over the state of one pipeline execution\<close>

text \<open>
  The mutable objects and the locals that outlive a \<^verbatim>\<open>try\<close> block: \<open>rr\<close> is
  \<open>None\<close> while the local is unbound. \<open>calls\<close> lists the requests issued, each
  with what came back, and \<open>pauses\<close> counts the calls of \<^verbatim>\<open>time.sleep\<close>.
\<close>

record state =
  out :: outcome
  sess :: session
  rr :: "response option"
  completed :: "json list"
  calls :: "(request \<times> reply) list"
  pauses :: nat

type_synonym 'a prog = "state \<Rightarrow> (exn + 'a) \<times> state"

definition ret :: "'a \<Rightarrow> 'a prog" where
  "ret v s = (Inr v, s)"

definition raise :: "exn \<Rightarrow> 'a prog" where
  "raise e s = (Inl e, s)"

definition lift :: "exn + 'a \<Rightarrow> 'a prog" where
  "lift r s = (r, s)"

definition modify :: "(state \<Rightarrow> state) \<Rightarrow> unit prog" where
  "modify f s = (Inr (), f s)"

definition seq :: "'a prog \<Rightarrow> ('a \<Rightarrow> 'b prog) \<Rightarrow> 'b prog" where
  "seq m f s = (case m s of (Inl e, s') \<Rightarrow> (Inl e, s') | (Inr v, s') \<Rightarrow> f v s')"

definition try_except :: "'a prog \<Rightarrow> (exn \<Rightarrow> 'a prog) \<Rightarrow> 'a prog" where
  "try_except m h s = (case m s of (Inl e, s') \<Rightarrow> h e s' | (Inr v, s') \<Rightarrow> (Inr v, s'))"

fun for_each :: "('a \<Rightarrow> unit prog) \<Rightarrow> 'a list \<Rightarrow> unit prog" where
  "for_each f [] s = (Inr (), s)"
| "for_each f (x # xs) s =
     (case f x s of (Inl e, s') \<Rightarrow> (Inl e, s') | (Inr _, s') \<Rightarrow> for_each f xs s')"

section \<open>The response decoder and the library calls on a response\<close>

definition resp_json :: "response \<Rightarrow> exn + json" where
  "resp_json r = (case decoded r of Some j \<Rightarrow> Inr j | None \<Rightarrow> Inl JSONDecodeError)"

definition safe_json :: "response \<Rightarrow> exn + json" where
  "safe_json resp =
     (case resp_json resp of
        Inr j \<Rightarrow> Inr j
      | Inl e \<Rightarrow> Inr (JObj [(''_raw'', JStr (resp_text resp))]))"

text \<open>
  \<^verbatim>\<open>Response.raise_for_status\<close> of the requests library raises for the client and
  server error codes, 400 to 599, and for no other status.
\<close>

definition raise_for_status :: "response \<Rightarrow> exn + unit" where
  "raise_for_status r =
     (if 400 \<le> status_code r \<and> status_code r < 600 then Inl (HTTPError (status_code r))
      else Inr ())"

definition post :: "service \<Rightarrow> string \<Rightarrow> json \<Rightarrow> int \<Rightarrow> response prog" where
  "post net u js t s =
     (let rq = \<lparr> url = u, payload = js, rq_headers = headers (sess s), rq_timeout = t \<rparr>;
          rp = net (length (calls s)) in
      ((case rp of Raised e \<Rightarrow> Inl e | Responded r \<Rightarrow> Inr r),
       s\<lparr> calls := calls s @ [(rq, rp)] \<rparr>))"

definition append_error :: "error_record \<Rightarrow> unit prog" where
  "append_error er = modify (\<lambda>s. s\<lparr> out := (out s)\<lparr> errors := errors (out s) @ [er] \<rparr> \<rparr>)"

text \<open>Reading the local \<^verbatim>\<open>rr\<close>.\<close>

definition read_rr :: "response prog" where
  "read_rr s = ((case rr s of Some r \<Rightarrow> Inr r | None \<Rightarrow> Inl (UnboundLocalError ''rr'')), s)"

section \<open>The account pipeline\<close>

text \<open>Stage 1, the body of the first \<^verbatim>\<open>try\<close>.\<close>

definition login_body :: "lib \<Rightarrow> service \<Rightarrow> credential \<Rightarrow> config \<Rightarrow> unit prog" where
  "login_body L net cred cfg =
     seq (ret (password cfg @ cred_code cred)) (\<lambda>pwd.
     seq (ret (md5_hexdigest L pwd)) (\<lambda>md5.
     seq (post net LOGIN (JObj [(''phone'', JStr (cred_phone cred)), (''password'', JStr md5)])
            (timeout cfg)) (\<lambda>r.
     seq (modify (\<lambda>s. s\<lparr> out := (out s)\<lparr> login_status_code := Some (status_code r) \<rparr> \<rparr>)) (\<lambda>_.
     seq (lift (safe_json r)) (\<lambda>j.
     seq (modify (\<lambda>s. s\<lparr> out := (out s)\<lparr> login_response := Some j \<rparr> \<rparr>)) (\<lambda>_.
     seq (lift (raise_for_status r)) (\<lambda>_.
     seq (lift (dict_get j ''result'' (JObj []))) (\<lambda>res1.
     seq (lift (dict_get res1 ''token'' JNull)) (\<lambda>token.
     seq (lift (dict_get j ''result'' (JObj []))) (\<lambda>res2.
     seq (lift (dict_get res2 ''tokenHead'' JNull)) (\<lambda>head.
     seq (lift (dict_get j ''result'' (JObj []))) (\<lambda>res3.
     seq (lift (dict_get res3 ''sysUserId'' JNull)) (\<lambda>uid.
     if \<not> truthy token \<or> \<not> truthy head then raise (ValueError ''Missing token/head'')
     else modify (\<lambda>s. s\<lparr> sess := (sess s)\<lparr> headers := update_headers
            [(''Authorization'', py_str L head @ '' '' @ py_str L token),
             (''memberInfoId'', py_str L uid)] (headers (sess s)) \<rparr> \<rparr>))))))))))))))"

text \<open>Stage 2, the body of the second \<^verbatim>\<open>try\<close>; its value is the local \<^verbatim>\<open>info\<close>.\<close>

definition info_body :: "service \<Rightarrow> config \<Rightarrow> json prog" where
  "info_body net cfg =
     seq (post net DAILY_INFO (JObj []) (timeout cfg)) (\<lambda>r.
     seq (modify (\<lambda>s. s\<lparr> out := (out s)\<lparr> info_status_code := Some (status_code r) \<rparr> \<rparr>)) (\<lambda>_.
     seq (lift (safe_json r)) (\<lambda>info.
     seq (modify (\<lambda>s. s\<lparr> out := (out s)\<lparr> info_response := Some info \<rparr> \<rparr>)) (\<lambda>_.
     seq (lift (raise_for_status r)) (\<lambda>_.
     ret info)))))"

text \<open>The inner \<^verbatim>\<open>try\<close> of stage 3: one claim call, and its handler.\<close>

definition claim_call :: "service \<Rightarrow> config \<Rightarrow> json \<Rightarrow> unit prog" where
  "claim_call net cfg num =
     seq (post net DAILY_CLAIM (JObj [(''workInfoReadingNum'', num)]) (timeout cfg)) (\<lambda>resp.
     seq (modify (\<lambda>s. s\<lparr> rr := Some resp \<rparr>)) (\<lambda>_.
     seq (lift (safe_json resp)) (\<lambda>j.
     seq (modify (\<lambda>s. s\<lparr> out := (out s)\<lparr> claim_responses :=
            Some ((case claim_responses (out s) of None \<Rightarrow> [] | Some crs \<Rightarrow> crs)
                  @ [\<lparr> tier = num, cr_status_code = status_code resp, cr_response = j \<rparr>]) \<rparr> \<rparr>)) (\<lambda>_.
     seq (lift (raise_for_status resp)) (\<lambda>_.
     modify (\<lambda>s. s\<lparr> completed := completed s @ [num] \<rparr>))))))"

definition claim_handler :: "lib \<Rightarrow> json \<Rightarrow> exn \<Rightarrow> unit prog" where
  "claim_handler L num ce =
     seq read_rr (\<lambda>resp.
     seq (lift (safe_json resp)) (\<lambda>j.
     append_error \<lparr> stage = ''claim_'' @ py_str L num, error = ce, err_response = Some j \<rparr>))"

text \<open>The body of the \<^verbatim>\<open>for\<close> loop.\<close>

definition claim_tier :: "lib \<Rightarrow> service \<Rightarrow> config \<Rightarrow> json \<Rightarrow> unit prog" where
  "claim_tier L net cfg t =
     seq (lift (dict_get t ''memberReadingRewardStatus'' JNull)) (\<lambda>st.
     if st = JStr ''complete'' then
       seq (lift (dict_get t ''workInfoReadingNum'' JNull)) (\<lambda>num.
       seq (try_except (claim_call net cfg num) (claim_handler L num)) (\<lambda>_.
       modify (\<lambda>s. s\<lparr> pauses := pauses s + 1 \<rparr>)))
     else ret ())"

text \<open>Stage 3, the body of the outer \<^verbatim>\<open>try\<close>.\<close>

definition claim_body :: "lib \<Rightarrow> service \<Rightarrow> config \<Rightarrow> json \<Rightarrow> unit prog" where
  "claim_body L net cfg info =
     seq (lift (dict_get info ''result'' (JObj []))) (\<lambda>res.
     seq (lift (dict_get res ''memberReadingRewardDetailVoList'' (JArr []))) (\<lambda>tiers.
     seq (lift (py_iter tiers)) (\<lambda>ts.
     seq (for_each (claim_tier L net cfg) ts) (\<lambda>_.
     modify (\<lambda>s. s\<lparr> out := (out s)\<lparr> claimed_tiers := Some (completed s) \<rparr> \<rparr>)))))"

text \<open>
  The state before stage 1: the fresh \<^verbatim>\<open>out\<close> with the phone and the time
  \<^verbatim>\<open>datetime.now().isoformat()\<close>, given as \<open>now\<close>, and the session just made.
\<close>

definition init_state :: "string \<Rightarrow> credential \<Rightarrow> config \<Rightarrow> state" where
  "init_state now cred cfg =
     \<lparr> out = \<lparr> phone = cred_phone cred, ts = now, errors = [],
               login_status_code = None, login_response = None,
               info_status_code = None, info_response = None,
               claim_responses = None, claimed_tiers = None \<rparr>,
       sess = make_session cfg, rr = None, completed = [], calls = [], pauses = 0 \<rparr>"

text \<open>
  The function body after the session is made. A handler that ends in
  \<^verbatim>\<open>return out\<close> gives the outcome to return (\<open>Some\<close> in stage 1, \<open>Inr\<close> in
  stage 2); a stage that ran through gives \<open>None\<close>, or the local \<^verbatim>\<open>info\<close> as
  \<open>Inl\<close>, and the next stage follows. A credential has both of its keys, as
  every entry of the table in the source has, so the two lookups made before the
  first \<^verbatim>\<open>try\<close> are not statements that may raise.
\<close>

definition pipeline :: "lib \<Rightarrow> service \<Rightarrow> credential \<Rightarrow> config \<Rightarrow> outcome prog" where
  "pipeline L net cred cfg =
     seq (try_except
            (seq (login_body L net cred cfg) (\<lambda>_. ret None))
            (\<lambda>e. seq (append_error \<lparr> stage = ''login'', error = e, err_response = None \<rparr>) (\<lambda>_.
                  (\<lambda>s. (Inr (Some (out s)), s))))) (\<lambda>returned.
     case returned of Some res \<Rightarrow> ret res | None \<Rightarrow>
     seq (try_except
            (seq (info_body net cfg) (\<lambda>info. ret (Inl info)))
            (\<lambda>e. seq (append_error \<lparr> stage = ''fetch_info'', error = e, err_response = None \<rparr>) (\<lambda>_.
                  (\<lambda>s. (Inr (Inr (out s)), s))))) (\<lambda>fetched.
     case fetched of Inr res \<Rightarrow> ret res | Inl info \<Rightarrow>
     seq (modify (\<lambda>s. s\<lparr> completed := [] \<rparr>)) (\<lambda>_.
     seq (try_except
            (claim_body L net cfg info)
            (\<lambda>e. append_error \<lparr> stage = ''claim_loop'', error = e, err_response = None \<rparr>)) (\<lambda>_.
     (\<lambda>s. (Inr (out s), s))))))"

definition run :: "lib \<Rightarrow> service \<Rightarrow> string \<Rightarrow> credential \<Rightarrow> config \<Rightarrow> (exn + outcome) \<times> state" where
  "run L net now cred cfg = pipeline L net cred cfg (init_state now cred cfg)"

definition login_and_claim :: "lib \<Rightarrow> service \<Rightarrow> string \<Rightarrow> credential \<Rightarrow> config \<Rightarrow> exn + outcome" where
  "login_and_claim L net now cred cfg = fst (run L net now cred cfg)"

section \<open>The batch orchestrator\<close>

text \<open>
  \<^verbatim>\<open>as_completed\<close> hands out the futures in the order they finish, given here as
  the list of their positions. \<^verbatim>\<open>fut.result()\<close> raises what the call raised.
\<close>

definition as_completed :: "nat list \<Rightarrow> 'a list \<Rightarrow> 'a list" where
  "as_completed order futures = map (\<lambda>i. futures ! i) order"

fun collect :: "(exn + outcome) list \<Rightarrow> outcome list \<Rightarrow> exn + outcome list" where
  "collect [] results = Inr results"
| "collect (fut # futs) results =
     (case fut of Inl e \<Rightarrow> Inl e | Inr res \<Rightarrow> collect futs (results @ [res]))"

text \<open>
  The loop of \<^verbatim>\<open>main\<close> that fills \<^verbatim>\<open>results\<close>; what it prints on the way is left
  out. The execution at position \<open>i\<close> of the credential list talks to the service
  \<open>fst (world i)\<close> and reads the clock \<open>snd (world i)\<close>.
\<close>

definition main ::
    "lib \<Rightarrow> (nat \<Rightarrow> service \<times> string) \<Rightarrow> config \<Rightarrow> nat list \<Rightarrow> credential list
     \<Rightarrow> exn + outcome list" where
  "main L world cfg order credentials =
     collect (as_completed order
       (map (\<lambda>(i, c). login_and_claim L (fst (world i)) (snd (world i)) c cfg)
            (enumerate 0 credentials))) []"

section \<open>Notions the properties are stated with\<close>

text \<open>The body as the decoder gives it.\<close>

definition decoded_body :: "response \<Rightarrow> json" where
  "decoded_body r = (case safe_json r of Inr j \<Rightarrow> j | Inl e \<Rightarrow> JNull)"

text \<open>
  A field of the nested result object of a decoded body, where the body has such
  an object and the object has the field.
\<close>

definition result_field :: "json \<Rightarrow> string \<Rightarrow> json option" where
  "result_field body k =
     (case body of
        JObj kvs \<Rightarrow> (case map_of kvs ''result'' of Some (JObj rs) \<Rightarrow> map_of rs k | _ \<Rightarrow> None)
      | _ \<Rightarrow> None)"

text \<open>A required field is missing: absent, or present with an empty (false) value.\<close>

definition field_missing :: "json \<Rightarrow> string \<Rightarrow> bool" where
  "field_missing body k = (case result_field body k of None \<Rightarrow> True | Some v \<Rightarrow> \<not> truthy v)"

text \<open>A call failed: it raised, or it returned a client or server error status.\<close>

definition call_failed :: "reply \<Rightarrow> bool" where
  "call_failed rp =
     (case rp of Raised e \<Rightarrow> True | Responded r \<Rightarrow> 400 \<le> status_code r \<and> status_code r < 600)"

text \<open>
  The login call failed, or its decoded body is missing the authorization token
  or the token-type prefix.
\<close>

definition login_rejected :: "reply \<Rightarrow> bool" where
  "login_rejected rp =
     (call_failed rp \<or>
      (case rp of Raised e \<Rightarrow> False
       | Responded r \<Rightarrow> field_missing (decoded_body r) ''token''
                        \<or> field_missing (decoded_body r) ''tokenHead''))"

text \<open>The reward tiers listed in a decoded info body; none when there is no such list.\<close>

definition tier_list :: "json \<Rightarrow> json list" where
  "tier_list info =
     (case result_field info ''memberReadingRewardDetailVoList'' of
        Some (JArr tiers) \<Rightarrow> tiers
      | _ \<Rightarrow> [])"

text \<open>A tier record whose status equals exactly "complete", and the identifier of a tier.\<close>

definition tier_complete :: "json \<Rightarrow> bool" where
  "tier_complete t =
     (case t of
        JObj kvs \<Rightarrow> map_of kvs ''memberReadingRewardStatus'' = Some (JStr ''complete'')
      | _ \<Rightarrow> False)"

definition tier_num :: "json \<Rightarrow> json" where
  "tier_num t =
     (case t of
        JObj kvs \<Rightarrow> (case map_of kvs ''workInfoReadingNum'' of Some v \<Rightarrow> v | None \<Rightarrow> JNull)
      | _ \<Rightarrow> JNull)"

text \<open>The claim attempt records of an outcome, the claim calls of a run and what they carry.\<close>

definition attempts :: "outcome \<Rightarrow> claim_response list" where
  "attempts res = (case claim_responses res of None \<Rightarrow> [] | Some crs \<Rightarrow> crs)"

definition claim_calls :: "state \<Rightarrow> (request \<times> reply) list" where
  "claim_calls s = filter (\<lambda>c. url (fst c) = DAILY_CLAIM) (calls s)"

definition claim_payload :: "json \<Rightarrow> json" where
  "claim_payload num = JObj [(''workInfoReadingNum'', num)]"

text \<open>The record of the outer handler of stage 3, which carries no response.\<close>

definition claim_loop_record :: "exn \<Rightarrow> error_record" where
  "claim_loop_record e = \<lparr> stage = ''claim_loop'', error = e, err_response = None \<rparr>"

text \<open>
  What stage 3 iterates over: the value of \<^verbatim>\<open>tiers\<close> as the \<^verbatim>\<open>for\<close> statement
  takes it apart, or the exception raised on the way.
\<close>

definition tiers_of :: "json \<Rightarrow> exn + json list" where
  "tiers_of info =
     (case dict_get info ''result'' (JObj []) of
        Inl e \<Rightarrow> Inl e
      | Inr res \<Rightarrow>
          (case dict_get res ''memberReadingRewardDetailVoList'' (JArr []) of
             Inl e \<Rightarrow> Inl e
           | Inr tiers \<Rightarrow> py_iter tiers))"

definition is_dict :: "json \<Rightarrow> bool" where
  "is_dict v = (case v of JObj kvs \<Rightarrow> True | _ \<Rightarrow> False)"

text \<open>The tier identifier a claim request carries.\<close>

definition claim_num :: "request \<Rightarrow> json" where
  "claim_num rq =
     (case payload rq of
        JObj kvs \<Rightarrow> (case map_of kvs ''workInfoReadingNum'' of Some v \<Rightarrow> v | None \<Rightarrow> JNull)
      | _ \<Rightarrow> JNull)"

text \<open>
  One attempt record for each call that came back with a response, and the
  identifiers of the calls that did not fail.
\<close>

definition attempt_of :: "request \<times> reply \<Rightarrow> claim_response list" where
  "attempt_of c =
     (case snd c of
        Raised e \<Rightarrow> []
      | Responded r \<Rightarrow> [\<lparr> tier = claim_num (fst c), cr_status_code = status_code r,
                           cr_response = decoded_body r \<rparr>])"

definition attempt_records :: "(request \<times> reply) list \<Rightarrow> claim_response list" where
  "attempt_records cs = concat (map attempt_of cs)"

definition claimed_nums :: "(request \<times> reply) list \<Rightarrow> json list" where
  "claimed_nums cs = map (\<lambda>c. claim_num (fst c)) (filter (\<lambda>c. \<not> call_failed (snd c)) cs)"

text \<open>The identifiers of the tiers of a fetched info body that are complete, in its order.\<close>

definition eligible :: "outcome \<Rightarrow> json list" where
  "eligible res =
     (case info_response res of
        None \<Rightarrow> []
      | Some info \<Rightarrow> map tier_num (filter tier_complete (tier_list info)))"

section \<open>States and invariants used in the proofs\<close>

text \<open>
  The state after the login call and after the info call, whatever came back: the
  call is logged, and the status and the decoded body are recorded when there is a
  response.
\<close>

definition login_state :: "lib \<Rightarrow> service \<Rightarrow> credential \<Rightarrow> config \<Rightarrow> state \<Rightarrow> state" where
  "login_state L net cred cfg s =
     (let rp = net (length (calls s));
          s1 = s\<lparr> calls := calls s @
                 [(\<lparr> url = LOGIN,
                     payload = JObj [(''phone'', JStr (cred_phone cred)),
                                     (''password'', JStr (md5_hexdigest L (password cfg @ cred_code cred)))],
                     rq_headers = headers (sess s), rq_timeout = timeout cfg \<rparr>, rp)] \<rparr>
      in case rp of
           Raised e \<Rightarrow> s1
         | Responded r \<Rightarrow> s1\<lparr> out := (out s)\<lparr> login_status_code := Some (status_code r),
                                               login_response := Some (decoded_body r) \<rparr> \<rparr>)"

definition info_state :: "service \<Rightarrow> config \<Rightarrow> state \<Rightarrow> state" where
  "info_state net cfg s =
     (let rp = net (length (calls s));
          s1 = s\<lparr> calls := calls s @
                 [(\<lparr> url = DAILY_INFO, payload = JObj [],
                     rq_headers = headers (sess s), rq_timeout = timeout cfg \<rparr>, rp)] \<rparr>
      in case rp of
           Raised e \<Rightarrow> s1
         | Responded r \<Rightarrow> s1\<lparr> out := (out s)\<lparr> info_status_code := Some (status_code r),
                                               info_response := Some (decoded_body r) \<rparr> \<rparr>)"

text \<open>
  What the loop of stage 3 does between two states, in terms of the calls \<open>new\<close>
  it has made: it issues one claim request per complete tier, in order, as far as it
  gets; it appends one attempt record per response and one identifier per success;
  every error record it appends carries a response; it touches nothing else of
  the outcome.
\<close>

definition other_fields :: "outcome \<Rightarrow> outcome" where
  "other_fields res = res\<lparr> claim_responses := None, errors := [] \<rparr>"

definition loop_ok :: "json list \<Rightarrow> state \<Rightarrow> state \<Rightarrow> (request \<times> reply) list \<Rightarrow> bool" where
  "loop_ok tiers s s' new \<longleftrightarrow>
     calls s' = calls s @ new
   \<and> prefix (map (\<lambda>c. (url (fst c), payload (fst c))) new)
            (map (\<lambda>t. (DAILY_CLAIM, claim_payload (tier_num t))) (filter tier_complete tiers))
   \<and> attempts (out s') = attempts (out s) @ attempt_records new
   \<and> completed s' = completed s @ claimed_nums new
   \<and> (\<exists>es. errors (out s') = errors (out s) @ es \<and> (\<forall>x \<in> set es. err_response x \<noteq> None))
   \<and> other_fields (out s') = other_fields (out s)
   \<and> sess s' = sess s"

section \<open>Concrete runs\<close>

definition lib0 :: lib where
  "lib0 = \<lparr> md5_hexdigest = (\<lambda>s. ''md5:'' @ s), py_repr = (\<lambda>v. ''?'') \<rparr>"

definition cfg0 :: config where
  "cfg0 = \<lparr> sales_id = ''232'', timeout = 15, retries = 3, backoff = 2, password = ''password'' \<rparr>"

definition cred0 :: credential where
  "cred0 = \<lparr> cred_phone = ''09582811870'', cred_code = ''755'' \<rparr>"

definition cred1 :: credential where
  "cred1 = \<lparr> cred_phone = ''09291078442'', cred_code = ''586'' \<rparr>"

definition replied :: "int \<Rightarrow> json \<Rightarrow> reply" where
  "replied c j = Responded \<lparr> status_code = c, resp_text = [], decoded = Some j \<rparr>"

definition login_json :: json where
  "login_json = JObj [(''result'', JObj [(''token'', JStr ''tok''), (''tokenHead'', JStr ''Bearer''),
                                       (''sysUserId'', JInt 42)])]"

definition login_json_no_id :: json where
  "login_json_no_id = JObj [(''result'', JObj [(''token'', JStr ''tok''), (''tokenHead'', JStr ''Bearer'')])]"

definition tier_rec :: "int \<Rightarrow> string \<Rightarrow> json" where
  "tier_rec n st = JObj [(''workInfoReadingNum'', JInt n), (''memberReadingRewardStatus'', JStr st)]"

definition info_json :: "json list \<Rightarrow> json" where
  "info_json tiers = JObj [(''result'', JObj [(''memberReadingRewardDetailVoList'', JArr tiers)])]"

text \<open>A service that gives the listed replies in turn, and no response after them.\<close>

definition script :: "reply list \<Rightarrow> service" where
  "script rs i = (if i < length rs then rs ! i else Raised ConnectionError)"

text \<open>Services for the instances below, and a world in which no call gets a response.\<close>

definition net_unauthorized :: service where
  "net_unauthorized = script [replied 401 (JObj [])]"

definition net_info_timeout :: service where
  "net_info_timeout = script [replied 200 login_json, Raised Timeout]"

definition net_bad_tier :: service where
  "net_bad_tier = script [replied 200 login_json,
                          replied 200 (info_json [tier_rec 5 ''complete'', JStr ''x'']),
                          replied 200 (JObj [])]"

definition world0 :: "nat \<Rightarrow> service \<times> string" where
  "world0 i = (script [], ''t0'')"

section \<open>The response decoder\<close>

lemmas monad_defs = ret_def raise_def lift_def modify_def seq_def try_except_def

text \<open>
  C8: for every response the decoder returns a value and never raises: the
  decoded body when \<^verbatim>\<open>resp.json()\<close> returns one, and otherwise the dict that holds
  the raw text under the key \<^verbatim>\<open>_raw\<close>.
\<close>

theorem safe_json_never_raises:
  "safe_json resp =
     Inr (case resp_json resp of
            Inr j \<Rightarrow> j
          | Inl e \<Rightarrow> JObj [(''_raw'', JStr (resp_text resp))])"
  by (simp add: safe_json_def split: sum.splits)

section \<open>The stages, one at a time\<close>

lemma field_missing_code:
  "field_missing body k \<longleftrightarrow>
     (case dict_get body ''result'' (JObj []) of
        Inl e \<Rightarrow> True
      | Inr res \<Rightarrow> (case dict_get res k JNull of Inl e \<Rightarrow> True | Inr v \<Rightarrow> \<not> truthy v))"
  by (auto simp: field_missing_def result_field_def dict_get_def split: json.splits option.splits)

lemma claim_tier_skip:
  "\<not> tier_complete t \<Longrightarrow>
   claim_tier L net cfg t s = ((if is_dict t then Inr () else Inl AttributeError), s)"
  by (auto simp: claim_tier_def tier_complete_def is_dict_def dict_get_def monad_defs
           split: json.splits option.splits)




lemma pipeline_unfold:
  "pipeline L net cred cfg s =
     (case login_body L net cred cfg s of
        (Inl e, s1) \<Rightarrow>
          (Inr ((out s1)\<lparr> errors := errors (out s1) @ [\<lparr> stage = ''login'', error = e, err_response = None \<rparr>] \<rparr>),
           s1\<lparr> out := (out s1)\<lparr> errors := errors (out s1) @ [\<lparr> stage = ''login'', error = e, err_response = None \<rparr>] \<rparr> \<rparr>)
      | (Inr u, s1) \<Rightarrow>
          (case info_body net cfg s1 of
             (Inl e, s2) \<Rightarrow>
               (Inr ((out s2)\<lparr> errors := errors (out s2) @ [\<lparr> stage = ''fetch_info'', error = e, err_response = None \<rparr>] \<rparr>),
                s2\<lparr> out := (out s2)\<lparr> errors := errors (out s2) @ [\<lparr> stage = ''fetch_info'', error = e, err_response = None \<rparr>] \<rparr> \<rparr>)
           | (Inr info, s2) \<Rightarrow>
               (case claim_body L net cfg info (s2\<lparr> completed := [] \<rparr>) of
                  (Inl e, s3) \<Rightarrow>
                    (Inr ((out s3)\<lparr> errors := errors (out s3) @ [claim_loop_record e] \<rparr>),
                     s3\<lparr> out := (out s3)\<lparr> errors := errors (out s3) @ [claim_loop_record e] \<rparr> \<rparr>)
                | (Inr u, s3) \<Rightarrow> (Inr (out s3), s3))))"
  by (simp add: pipeline_def monad_defs append_error_def claim_loop_record_def
           split: prod.splits sum.splits)



lemma safe_json_eq: "safe_json r = Inr (decoded_body r)"
  by (simp add: decoded_body_def safe_json_def split: sum.splits)

lemma complete_status:
  "tier_complete t \<Longrightarrow> dict_get t ''memberReadingRewardStatus'' JNull = Inr (JStr ''complete'')"
  by (simp add: tier_complete_def dict_get_def split: json.splits)

lemma complete_num:
  "tier_complete t \<Longrightarrow> dict_get t ''workInfoReadingNum'' JNull = Inr (tier_num t)"
  by (simp add: tier_complete_def tier_num_def dict_get_def split: json.splits)

lemma claim_call_raised:
  "net (length (calls s)) = Raised e \<Longrightarrow>
   claim_call net cfg num s =
     (Inl e, s\<lparr> calls := calls s @
        [(\<lparr> url = DAILY_CLAIM, payload = claim_payload num,
            rq_headers = headers (sess s), rq_timeout = timeout cfg \<rparr>, Raised e)] \<rparr>)"
  by (simp add: claim_call_def monad_defs post_def claim_payload_def Let_def)

lemma claim_call_responded:
  "net (length (calls s)) = Responded r \<Longrightarrow>
   claim_call net cfg num s =
     (if 400 \<le> status_code r \<and> status_code r < 600
      then (Inl (HTTPError (status_code r)),
            s\<lparr> calls := calls s @
                  [(\<lparr> url = DAILY_CLAIM, payload = claim_payload num,
                      rq_headers = headers (sess s), rq_timeout = timeout cfg \<rparr>, Responded r)],
               rr := Some r,
               out := (out s)\<lparr> claim_responses := Some (attempts (out s) @
                  [\<lparr> tier = num, cr_status_code = status_code r,
                     cr_response = decoded_body r \<rparr>]) \<rparr> \<rparr>)
      else (Inr (),
            s\<lparr> calls := calls s @
                  [(\<lparr> url = DAILY_CLAIM, payload = claim_payload num,
                      rq_headers = headers (sess s), rq_timeout = timeout cfg \<rparr>, Responded r)],
               rr := Some r,
               out := (out s)\<lparr> claim_responses := Some (attempts (out s) @
                  [\<lparr> tier = num, cr_status_code = status_code r,
                     cr_response = decoded_body r \<rparr>]) \<rparr>,
               completed := completed s @ [num] \<rparr>))"
  by (simp add: claim_call_def monad_defs post_def claim_payload_def Let_def safe_json_eq
        raise_for_status_def attempts_def)

lemma claim_handler_unbound:
  "rr s = None \<Longrightarrow> claim_handler L num ce s = (Inl (UnboundLocalError ''rr''), s)"
  by (simp add: claim_handler_def monad_defs read_rr_def)

lemma claim_handler_bound:
  "rr s = Some r0 \<Longrightarrow>
   claim_handler L num ce s =
     (Inr (), s\<lparr> out := (out s)\<lparr> errors := errors (out s) @
        [\<lparr> stage = ''claim_'' @ py_str L num, error = ce,
           err_response = Some (decoded_body r0) \<rparr>] \<rparr> \<rparr>)"
  by (simp add: claim_handler_def monad_defs read_rr_def safe_json_eq append_error_def)

lemma claim_tier_complete_unfold:
  "tier_complete t \<Longrightarrow>
   claim_tier L net cfg t s =
     (case try_except (claim_call net cfg (tier_num t)) (claim_handler L (tier_num t)) s of
        (Inl e, s') \<Rightarrow> (Inl e, s')
      | (Inr u, s') \<Rightarrow> (Inr (), s'\<lparr> pauses := pauses s' + 1 \<rparr>))"
  by (simp add: claim_tier_def complete_status complete_num seq_def lift_def modify_def
           split: prod.splits sum.splits)

lemma claim_num_payload [simp]:
  "claim_num \<lparr> url = u, payload = claim_payload num, rq_headers = h, rq_timeout = t \<rparr> = num"
  by (simp add: claim_num_def claim_payload_def)

lemma claim_tier_step:
  assumes "tier_complete t" and "claim_tier L net cfg t s = (r, s')"
  shows "loop_ok [t] s s'
           [(\<lparr> url = DAILY_CLAIM, payload = claim_payload (tier_num t),
               rq_headers = headers (sess s), rq_timeout = timeout cfg \<rparr>,
            net (length (calls s)))]"
proof (cases "net (length (calls s))")
  case (Raised e)
  show ?thesis
  proof (cases "rr s")
    case None
    with Raised assms show ?thesis
      by (auto simp: claim_tier_complete_unfold try_except_def claim_call_raised
            claim_handler_unbound loop_ok_def attempt_records_def attempt_of_def
            claimed_nums_def call_failed_def attempts_def other_fields_def)
  next
    case (Some r0)
    with Raised assms show ?thesis
      by (auto simp: claim_tier_complete_unfold try_except_def claim_call_raised
            claim_handler_bound loop_ok_def attempt_records_def attempt_of_def
            claimed_nums_def call_failed_def attempts_def other_fields_def)
  qed
next
  case (Responded resp)
  with assms show ?thesis
    by (auto simp: claim_tier_complete_unfold try_except_def claim_call_responded
          claim_handler_bound loop_ok_def attempt_records_def attempt_of_def
          claimed_nums_def call_failed_def attempts_def other_fields_def)
qed

lemma loop_ok_nil: "loop_ok tiers s s []"
  by (simp add: loop_ok_def attempt_records_def claimed_nums_def)

lemma loop_ok_skip: "\<not> tier_complete t \<Longrightarrow> loop_ok tiers s s' new \<Longrightarrow> loop_ok (t # tiers) s s' new"
  by (simp add: loop_ok_def)

lemma loop_ok_cons:
  assumes "tier_complete t" and "loop_ok [t] s s1 [c]" and "loop_ok tiers s1 s' new"
  shows "loop_ok (t # tiers) s s' (c # new)"
proof -
  from assms(2) obtain es1 where e1: "errors (out s1) = errors (out s) @ es1"
      "\<forall>x \<in> set es1. err_response x \<noteq> None"
    unfolding loop_ok_def by blast
  from assms(3) obtain es2 where e2: "errors (out s') = errors (out s1) @ es2"
      "\<forall>x \<in> set es2. err_response x \<noteq> None"
    unfolding loop_ok_def by blast
  have "errors (out s') = errors (out s) @ (es1 @ es2) \<and> (\<forall>x \<in> set (es1 @ es2). err_response x \<noteq> None)"
    using e1 e2 by auto
  then have errs: "\<exists>es. errors (out s') = errors (out s) @ es \<and> (\<forall>x \<in> set es. err_response x \<noteq> None)"
    by blast
  from assms show ?thesis
    unfolding loop_ok_def using errs
    by (simp add: attempt_records_def claimed_nums_def)
qed

lemma loop_ok_first:
  "tier_complete t \<Longrightarrow> loop_ok [t] s s1 [c] \<Longrightarrow> loop_ok (t # tiers) s s1 [c]"
  using loop_ok_cons [of t s s1 c tiers s1 "[]"] by (simp add: loop_ok_nil)

lemma for_each_inv:
  "for_each (claim_tier L net cfg) tiers s = (r, s') \<Longrightarrow>
   \<exists>new. loop_ok tiers s s' new
        \<and> (r = Inr () \<longrightarrow> length new = length (filter tier_complete tiers) \<and> list_all is_dict tiers)"
proof (induction tiers arbitrary: s)
  case Nil
  then show ?case by (auto intro: loop_ok_nil)
next
  case (Cons t tiers)
  show ?case
  proof (cases "tier_complete t")
    case False
    show ?thesis
    proof (cases "is_dict t")
      case True
      with False Cons.prems have "for_each (claim_tier L net cfg) tiers s = (r, s')"
        by (simp add: claim_tier_skip)
      from Cons.IH [OF this] obtain new where "loop_ok tiers s s' new"
        "r = Inr () \<longrightarrow> length new = length (filter tier_complete tiers) \<and> list_all is_dict tiers"
        by blast
      with False True show ?thesis by (auto intro: loop_ok_skip)
    next
      case nd: False
      with False Cons.prems have "r = Inl AttributeError" "s' = s"
        by (simp_all add: claim_tier_skip)
      then show ?thesis by (auto intro: loop_ok_nil)
    qed
  next
    case True
    obtain r1 s1 where step: "claim_tier L net cfg t s = (r1, s1)" by (cases "claim_tier L net cfg t s")
    let ?c = "(\<lparr> url = DAILY_CLAIM, payload = claim_payload (tier_num t),
               rq_headers = headers (sess s), rq_timeout = timeout cfg \<rparr>,
            net (length (calls s)))"
    have ok1: "loop_ok [t] s s1 [?c]" using claim_tier_step [OF True step] .
    have dict: "is_dict t" using True by (simp add: tier_complete_def is_dict_def split: json.splits)
    show ?thesis
    proof (cases r1)
      case (Inl e)
      with step Cons.prems have "r = Inl e" "s' = s1" by simp_all
      with ok1 True show ?thesis by (auto intro: loop_ok_first)
    next
      case (Inr u)
      with step Cons.prems have "for_each (claim_tier L net cfg) tiers s1 = (r, s')" by simp
      from Cons.IH [OF this] obtain new where new: "loop_ok tiers s1 s' new"
        "r = Inr () \<longrightarrow> length new = length (filter tier_complete tiers) \<and> list_all is_dict tiers"
        by blast
      have "loop_ok (t # tiers) s s' (?c # new)" using loop_ok_cons [OF True ok1 new(1)] .
      with new(2) True dict show ?thesis by (intro exI [of _ "?c # new"]) simp
    qed
  qed
qed

lemma info_body_failed:
  "call_failed (net (length (calls s))) \<Longrightarrow>
   \<exists>e. info_body net cfg s = (Inl e, info_state net cfg s)"
  by (auto simp: info_body_def info_state_def monad_defs post_def safe_json_eq
        raise_for_status_def call_failed_def Let_def split: reply.splits)

lemma info_body_ok:
  "net (length (calls s)) = Responded r \<Longrightarrow> \<not> call_failed (Responded r) \<Longrightarrow>
   info_body net cfg s = (Inr (decoded_body r), info_state net cfg s)"
  by (auto simp: info_body_def info_state_def monad_defs post_def safe_json_eq
        raise_for_status_def call_failed_def Let_def split: reply.splits)

lemma login_body_raised:
  "net (length (calls s)) = Raised e \<Longrightarrow>
   login_body L net cred cfg s = (Inl e, login_state L net cred cfg s)"
  by (simp add: login_body_def login_state_def monad_defs post_def Let_def)

lemma login_body_status:
  "net (length (calls s)) = Responded r \<Longrightarrow> 400 \<le> status_code r \<and> status_code r < 600 \<Longrightarrow>
   login_body L net cred cfg s = (Inl (HTTPError (status_code r)), login_state L net cred cfg s)"
  by (simp add: login_body_def login_state_def monad_defs post_def Let_def safe_json_eq
        raise_for_status_def)

lemma login_body_fields:
  assumes rp: "net (length (calls s)) = Responded r"
    and st: "\<not> (400 \<le> status_code r \<and> status_code r < 600)"
  shows "login_body L net cred cfg s =
     (case dict_get (decoded_body r) ''result'' (JObj []) of
        Inl e \<Rightarrow> (Inl e, login_state L net cred cfg s)
      | Inr res \<Rightarrow>
          (case dict_get res ''token'' JNull of
             Inl e \<Rightarrow> (Inl e, login_state L net cred cfg s)
           | Inr token \<Rightarrow>
               (case dict_get res ''tokenHead'' JNull of
                  Inl e \<Rightarrow> (Inl e, login_state L net cred cfg s)
                | Inr head \<Rightarrow>
                    (case dict_get res ''sysUserId'' JNull of
                       Inl e \<Rightarrow> (Inl e, login_state L net cred cfg s)
                     | Inr uid \<Rightarrow>
                         if \<not> truthy token \<or> \<not> truthy head
                         then (Inl (ValueError ''Missing token/head''), login_state L net cred cfg s)
                         else (Inr (), (login_state L net cred cfg s)
                                \<lparr> sess := (sess s)\<lparr> headers := update_headers
                                     [(''Authorization'', py_str L head @ '' '' @ py_str L token),
                                      (''memberInfoId'', py_str L uid)] (headers (sess s)) \<rparr> \<rparr>)))))"
proof -
  have ok: "raise_for_status r = Inr ()" using st by (auto simp: raise_for_status_def)
  show ?thesis using rp
    by (simp add: login_body_def login_state_def monad_defs post_def Let_def safe_json_eq ok
          split: sum.splits)
qed

lemma login_body_rejected:
  assumes "login_rejected (net (length (calls s)))"
  shows "\<exists>e. login_body L net cred cfg s = (Inl e, login_state L net cred cfg s)"
proof (cases "net (length (calls s))")
  case (Raised e)
  then show ?thesis by (simp add: login_body_raised)
next
  case (Responded r)
  show ?thesis
  proof (cases "400 \<le> status_code r \<and> status_code r < 600")
    case True
    with Responded show ?thesis by (simp add: login_body_status)
  next
    case False
    with assms Responded
    have miss: "field_missing (decoded_body r) ''token'' \<or> field_missing (decoded_body r) ''tokenHead''"
      by (simp add: login_rejected_def call_failed_def)
    then show ?thesis
      unfolding login_body_fields [where net=net and s=s and r=r, OF Responded False] field_missing_code
      by (auto split: sum.splits)
  qed
qed

lemma login_body_accepted:
  assumes "\<not> login_rejected (net (length (calls s)))"
  shows "\<exists>hs. login_body L net cred cfg s =
           (Inr (), (login_state L net cred cfg s)\<lparr> sess := (sess s)\<lparr> headers := hs \<rparr> \<rparr>)"
proof (cases "net (length (calls s))")
  case (Raised e)
  with assms show ?thesis by (simp add: login_rejected_def call_failed_def)
next
  case (Responded r)
  with assms have st: "\<not> (400 \<le> status_code r \<and> status_code r < 600)"
    and tok: "\<not> field_missing (decoded_body r) ''token''"
    and hd: "\<not> field_missing (decoded_body r) ''tokenHead''"
    by (auto simp: login_rejected_def call_failed_def)
  from tok hd show ?thesis
    unfolding login_body_fields [where net=net and s=s and r=r, OF Responded st] field_missing_code
    by (auto simp: dict_get_def split: sum.splits json.splits)
qed

lemma calls_login_state:
  "calls (login_state L net cred cfg s) =
     calls s @ [(\<lparr> url = LOGIN,
                   payload = JObj [(''phone'', JStr (cred_phone cred)),
                                   (''password'', JStr (md5_hexdigest L (password cfg @ cred_code cred)))],
                   rq_headers = headers (sess s), rq_timeout = timeout cfg \<rparr>,
                 net (length (calls s)))]"
  by (simp add: login_state_def Let_def split: reply.splits)

lemma calls_info_state:
  "calls (info_state net cfg s) =
     calls s @ [(\<lparr> url = DAILY_INFO, payload = JObj [],
                   rq_headers = headers (sess s), rq_timeout = timeout cfg \<rparr>,
                 net (length (calls s)))]"
  by (simp add: info_state_def Let_def split: reply.splits)

lemma out_login_state:
  "out (login_state L net cred cfg s) =
     (case net (length (calls s)) of
        Raised e \<Rightarrow> out s
      | Responded r \<Rightarrow> (out s)\<lparr> login_status_code := Some (status_code r),
                                 login_response := Some (decoded_body r) \<rparr>)"
  by (simp add: login_state_def Let_def split: reply.splits)

lemma out_info_state:
  "out (info_state net cfg s) =
     (case net (length (calls s)) of
        Raised e \<Rightarrow> out s
      | Responded r \<Rightarrow> (out s)\<lparr> info_status_code := Some (status_code r),
                                 info_response := Some (decoded_body r) \<rparr>)"
  by (simp add: info_state_def Let_def split: reply.splits)

lemma rest_login_state:
  "rr (login_state L net cred cfg s) = rr s"
  "completed (login_state L net cred cfg s) = completed s"
  "sess (login_state L net cred cfg s) = sess s"
  by (simp_all add: login_state_def Let_def split: reply.splits)

lemma rest_info_state:
  "rr (info_state net cfg s) = rr s"
  "completed (info_state net cfg s) = completed s"
  "sess (info_state net cfg s) = sess s"
  by (simp_all add: info_state_def Let_def split: reply.splits)

lemma claim_body_eq:
  "claim_body L net cfg info s =
     (case tiers_of info of
        Inl e \<Rightarrow> (Inl e, s)
      | Inr tiers \<Rightarrow>
          (case for_each (claim_tier L net cfg) tiers s of
             (Inl e, s') \<Rightarrow> (Inl e, s')
           | (Inr u, s') \<Rightarrow>
               (Inr (), s'\<lparr> out := (out s')\<lparr> claimed_tiers := Some (completed s') \<rparr> \<rparr>)))"
  by (simp add: claim_body_def tiers_of_def monad_defs split: sum.splits prod.splits)

lemma run_login_rejected:
  assumes "login_rejected (net 0)"
  shows "\<exists>e. run L net now cred cfg =
           (Inr ((out (login_state L net cred cfg (init_state now cred cfg)))
                  \<lparr> errors := [\<lparr> stage = ''login'', error = e, err_response = None \<rparr>] \<rparr>),
            (login_state L net cred cfg (init_state now cred cfg))
              \<lparr> out := (out (login_state L net cred cfg (init_state now cred cfg)))
                  \<lparr> errors := [\<lparr> stage = ''login'', error = e, err_response = None \<rparr>] \<rparr> \<rparr>)"
proof -
  have "login_rejected (net (length (calls (init_state now cred cfg))))"
    using assms by (simp add: init_state_def)
  from login_body_rejected [where net=net and s="init_state now cred cfg" and L=L and cred=cred and cfg=cfg, OF this]
  obtain e where "login_body L net cred cfg (init_state now cred cfg)
        = (Inl e, login_state L net cred cfg (init_state now cred cfg))" by blast
  moreover have "errors (out (login_state L net cred cfg (init_state now cred cfg))) = []"
    by (simp add: out_login_state init_state_def split: reply.splits)
  ultimately show ?thesis
    by (intro exI [of _ e]) (simp add: run_def pipeline_unfold)
qed

text \<open>The state in which the info call is made, after an accepted login.\<close>

lemma run_after_login:
  assumes "\<not> login_rejected (net 0)"
  shows "\<exists>hs. run L net now cred cfg =
     (case info_body net cfg
             ((login_state L net cred cfg (init_state now cred cfg))
                \<lparr> sess := (make_session cfg)\<lparr> headers := hs \<rparr> \<rparr>) of
        (Inl e, s2) \<Rightarrow>
          (Inr ((out s2)\<lparr> errors := errors (out s2) @ [\<lparr> stage = ''fetch_info'', error = e, err_response = None \<rparr>] \<rparr>),
           s2\<lparr> out := (out s2)\<lparr> errors := errors (out s2) @ [\<lparr> stage = ''fetch_info'', error = e, err_response = None \<rparr>] \<rparr> \<rparr>)
      | (Inr info, s2) \<Rightarrow>
          (case claim_body L net cfg info (s2\<lparr> completed := [] \<rparr>) of
             (Inl e, s3) \<Rightarrow>
               (Inr ((out s3)\<lparr> errors := errors (out s3) @ [claim_loop_record e] \<rparr>),
                s3\<lparr> out := (out s3)\<lparr> errors := errors (out s3) @ [claim_loop_record e] \<rparr> \<rparr>)
           | (Inr u, s3) \<Rightarrow> (Inr (out s3), s3)))"
proof -
  have "\<not> login_rejected (net (length (calls (init_state now cred cfg))))"
    using assms by (simp add: init_state_def)
  from login_body_accepted [where net=net and s="init_state now cred cfg" and L=L and cred=cred and cfg=cfg, OF this]
  obtain hs where "login_body L net cred cfg (init_state now cred cfg)
        = (Inr (), (login_state L net cred cfg (init_state now cred cfg))
                     \<lparr> sess := (sess (init_state now cred cfg))\<lparr> headers := hs \<rparr> \<rparr>)" by blast
  then show ?thesis
    by (intro exI [of _ hs]) (simp add: run_def pipeline_unfold init_state_def)
qed

lemma run_info_failed:
  assumes "\<not> login_rejected (net 0)" and "call_failed (net 1)"
  shows "\<exists>e hs. run L net now cred cfg =
      (Inr ((out (info_state net cfg ((login_state L net cred cfg (init_state now cred cfg))
                \<lparr> sess := (make_session cfg)\<lparr> headers := hs \<rparr> \<rparr>)))
             \<lparr> errors := [\<lparr> stage = ''fetch_info'', error = e, err_response = None \<rparr>] \<rparr>),
       (info_state net cfg ((login_state L net cred cfg (init_state now cred cfg))
                \<lparr> sess := (make_session cfg)\<lparr> headers := hs \<rparr> \<rparr>))
         \<lparr> out := (out (info_state net cfg ((login_state L net cred cfg (init_state now cred cfg))
                \<lparr> sess := (make_session cfg)\<lparr> headers := hs \<rparr> \<rparr>)))
             \<lparr> errors := [\<lparr> stage = ''fetch_info'', error = e, err_response = None \<rparr>] \<rparr> \<rparr>)"
proof -
  from run_after_login [where net=net and L=L and now=now and cred=cred and cfg=cfg, OF assms(1)] obtain hs where
    run: "run L net now cred cfg =
     (case info_body net cfg
             ((login_state L net cred cfg (init_state now cred cfg))
                \<lparr> sess := (make_session cfg)\<lparr> headers := hs \<rparr> \<rparr>) of
        (Inl e, s2) \<Rightarrow>
          (Inr ((out s2)\<lparr> errors := errors (out s2) @ [\<lparr> stage = ''fetch_info'', error = e, err_response = None \<rparr>] \<rparr>),
           s2\<lparr> out := (out s2)\<lparr> errors := errors (out s2) @ [\<lparr> stage = ''fetch_info'', error = e, err_response = None \<rparr>] \<rparr> \<rparr>)
      | (Inr info, s2) \<Rightarrow>
          (case claim_body L net cfg info (s2\<lparr> completed := [] \<rparr>) of
             (Inl e, s3) \<Rightarrow>
               (Inr ((out s3)\<lparr> errors := errors (out s3) @ [claim_loop_record e] \<rparr>),
                s3\<lparr> out := (out s3)\<lparr> errors := errors (out s3) @ [claim_loop_record e] \<rparr> \<rparr>)
           | (Inr u, s3) \<Rightarrow> (Inr (out s3), s3)))"
    by blast
  let ?s1 = "(login_state L net cred cfg (init_state now cred cfg))
                \<lparr> sess := (make_session cfg)\<lparr> headers := hs \<rparr> \<rparr>"
  have len: "length (calls ?s1) = 1"
    by (simp add: calls_login_state init_state_def)
  then have "call_failed (net (length (calls ?s1)))" using assms(2) by simp
  from info_body_failed [where net=net and s="?s1" and cfg=cfg, OF this]
  obtain e where e: "info_body net cfg ?s1 = (Inl e, info_state net cfg ?s1)" by blast
  have "errors (out (info_state net cfg ?s1)) = []"
    by (simp add: out_info_state out_login_state init_state_def split: reply.splits)
  then show ?thesis
    unfolding run e by (intro exI [of _ e] exI [of _ hs]) simp
qed

lemma other_fields_sel:
  "other_fields a = other_fields b \<Longrightarrow>
     claimed_tiers a = claimed_tiers b \<and> info_response a = info_response b"
  by (cases a, cases b) (simp add: other_fields_def)

lemma run_stage3:
  assumes acc: "\<not> login_rejected (net 0)"
    and r1: "net 1 = Responded r1"
    and ok: "\<not> call_failed (Responded r1)"
  obtains res s new es tail ca cb where
    "run L net now cred cfg = (Inr res, s)"
    "calls s = ca # cb # new" "url (fst ca) = LOGIN" "url (fst cb) = DAILY_INFO"
    "payload (fst ca) = JObj [(''phone'', JStr (cred_phone cred)),
        (''password'', JStr (md5_hexdigest L (password cfg @ cred_code cred)))]"
    "info_response res = Some (decoded_body r1)"
    "attempts res = attempt_records new"
    "errors res = es @ tail" "\<forall>x \<in> set es. err_response x \<noteq> None"
    "case tiers_of (decoded_body r1) of
       Inl e \<Rightarrow> new = [] \<and> tail = [claim_loop_record e] \<and> claimed_tiers res = None
     | Inr tiers \<Rightarrow>
         prefix (map (\<lambda>c. (url (fst c), payload (fst c))) new)
           (map (\<lambda>t. (DAILY_CLAIM, claim_payload (tier_num t))) (filter tier_complete tiers))
         \<and> ((tail = [] \<and> claimed_tiers res = Some (claimed_nums new) \<and> list_all is_dict tiers
              \<and> length new = length (filter tier_complete tiers))
            \<or> (\<exists>e. tail = [claim_loop_record e] \<and> claimed_tiers res = None))"
proof -
  from run_after_login [where net=net and L=L and now=now and cred=cred and cfg=cfg, OF acc]
  obtain hs where
    run: "run L net now cred cfg =
     (case info_body net cfg
             ((login_state L net cred cfg (init_state now cred cfg))
                \<lparr> sess := (make_session cfg)\<lparr> headers := hs \<rparr> \<rparr>) of
        (Inl e, s2) \<Rightarrow>
          (Inr ((out s2)\<lparr> errors := errors (out s2) @ [\<lparr> stage = ''fetch_info'', error = e, err_response = None \<rparr>] \<rparr>),
           s2\<lparr> out := (out s2)\<lparr> errors := errors (out s2) @ [\<lparr> stage = ''fetch_info'', error = e, err_response = None \<rparr>] \<rparr> \<rparr>)
      | (Inr info, s2) \<Rightarrow>
          (case claim_body L net cfg info (s2\<lparr> completed := [] \<rparr>) of
             (Inl e, s3) \<Rightarrow>
               (Inr ((out s3)\<lparr> errors := errors (out s3) @ [claim_loop_record e] \<rparr>),
                s3\<lparr> out := (out s3)\<lparr> errors := errors (out s3) @ [claim_loop_record e] \<rparr> \<rparr>)
           | (Inr u, s3) \<Rightarrow> (Inr (out s3), s3)))"
    by blast
  let ?s1 = "(login_state L net cred cfg (init_state now cred cfg))
                \<lparr> sess := (make_session cfg)\<lparr> headers := hs \<rparr> \<rparr>"
  let ?s2 = "(info_state net cfg ?s1)\<lparr> completed := [] \<rparr>"
  let ?info = "decoded_body r1"
  have len: "length (calls ?s1) = 1"
    by (simp add: calls_login_state init_state_def)
  have "info_body net cfg ?s1 = (Inr ?info, info_state net cfg ?s1)"
    using info_body_ok [where net=net and s="?s1" and r=r1 and cfg=cfg] r1 ok len by simp
  then have run2: "run L net now cred cfg =
      (case claim_body L net cfg ?info ?s2 of
         (Inl e, s3) \<Rightarrow>
           (Inr ((out s3)\<lparr> errors := errors (out s3) @ [claim_loop_record e] \<rparr>),
            s3\<lparr> out := (out s3)\<lparr> errors := errors (out s3) @ [claim_loop_record e] \<rparr> \<rparr>)
       | (Inr u, s3) \<Rightarrow> (Inr (out s3), s3))"
    unfolding run by simp
  obtain c0 c1 where calls2: "calls ?s2 = [c0, c1]" "url (fst c0) = LOGIN" "url (fst c1) = DAILY_INFO"
    "payload (fst c0) = JObj [(''phone'', JStr (cred_phone cred)),
        (''password'', JStr (md5_hexdigest L (password cfg @ cred_code cred)))]"
    by (simp add: calls_info_state calls_login_state init_state_def)
  have out2: "errors (out ?s2) = []" "attempts (out ?s2) = []" "claimed_tiers (out ?s2) = None"
       "info_response (out ?s2) = Some ?info"
    using r1 by (simp_all add: out_info_state out_login_state calls_login_state init_state_def
                    attempts_def split: reply.splits)
  have comp2: "completed ?s2 = []" by simp
  show ?thesis
  proof (cases "tiers_of ?info")
    case (Inl e)
    then have "run L net now cred cfg =
        (Inr ((out ?s2)\<lparr> errors := errors (out ?s2) @ [claim_loop_record e] \<rparr>),
         ?s2\<lparr> out := (out ?s2)\<lparr> errors := errors (out ?s2) @ [claim_loop_record e] \<rparr> \<rparr>)"
      unfolding run2 claim_body_eq by simp
    then show ?thesis
      using calls2 out2 Inl
      by (intro that [where new="[]" and es="[]" and tail="[claim_loop_record e]" and ca=c0 and cb=c1
              and res="(out ?s2)\<lparr> errors := errors (out ?s2) @ [claim_loop_record e] \<rparr>"
              and s="?s2\<lparr> out := (out ?s2)\<lparr> errors := errors (out ?s2) @ [claim_loop_record e] \<rparr> \<rparr>"])
         (simp_all add: attempts_def attempt_records_def)
  next
    case (Inr tiers)
    obtain r s3 where fe: "for_each (claim_tier L net cfg) tiers ?s2 = (r, s3)"
      by (cases "for_each (claim_tier L net cfg) tiers ?s2")
    from for_each_inv [OF fe] obtain new where
      inv: "loop_ok tiers ?s2 s3 new"
      and fin: "r = Inr () \<longrightarrow> length new = length (filter tier_complete tiers) \<and> list_all is_dict tiers"
      by blast
    from inv obtain es where es: "errors (out s3) = errors (out ?s2) @ es"
        "\<forall>x \<in> set es. err_response x \<noteq> None"
      unfolding loop_ok_def by blast
    from inv have c3: "calls s3 = calls ?s2 @ new"
      and pre: "prefix (map (\<lambda>c. (url (fst c), payload (fst c))) new)
           (map (\<lambda>t. (DAILY_CLAIM, claim_payload (tier_num t))) (filter tier_complete tiers))"
      and att: "attempts (out s3) = attempts (out ?s2) @ attempt_records new"
      and cmp: "completed s3 = completed ?s2 @ claimed_nums new"
      and oth: "other_fields (out s3) = other_fields (out ?s2)"
      unfolding loop_ok_def by blast+
    from other_fields_sel [OF oth] out2 have sel3: "claimed_tiers (out s3) = None"
      "info_response (out s3) = Some ?info" by simp_all
    show ?thesis
    proof (cases r)
      case (Inl e)
      with fe Inr have "run L net now cred cfg =
        (Inr ((out s3)\<lparr> errors := errors (out s3) @ [claim_loop_record e] \<rparr>),
         s3\<lparr> out := (out s3)\<lparr> errors := errors (out s3) @ [claim_loop_record e] \<rparr> \<rparr>)"
        unfolding run2 claim_body_eq by simp
      then show ?thesis
        using calls2 out2 Inr c3 pre att es sel3
        by (intro that [where new=new and es=es and tail="[claim_loop_record e]" and ca=c0 and cb=c1
              and res="(out s3)\<lparr> errors := errors (out s3) @ [claim_loop_record e] \<rparr>"
              and s="s3\<lparr> out := (out s3)\<lparr> errors := errors (out s3) @ [claim_loop_record e] \<rparr> \<rparr>"])
           (auto simp: attempts_def)
    next
      case r_ok: (Inr u)
      with fe Inr have "run L net now cred cfg =
        (Inr ((out s3)\<lparr> claimed_tiers := Some (completed s3) \<rparr>),
         s3\<lparr> out := (out s3)\<lparr> claimed_tiers := Some (completed s3) \<rparr> \<rparr>)"
        unfolding run2 claim_body_eq by simp
      then show ?thesis
        using calls2 out2 Inr c3 pre att es sel3 cmp comp2 fin r_ok
        by (intro that [where new=new and es=es and tail="[]" and ca=c0 and cb=c1
              and res="(out s3)\<lparr> claimed_tiers := Some (completed s3) \<rparr>"
              and s="s3\<lparr> out := (out s3)\<lparr> claimed_tiers := Some (completed s3) \<rparr> \<rparr>"])
           (auto simp: attempts_def)
    qed
  qed
qed

section \<open>Facts about whole runs\<close>

lemma urls_distinct:
  "LOGIN \<noteq> DAILY_CLAIM" "DAILY_INFO \<noteq> DAILY_CLAIM" "DAILY_INFO \<noteq> LOGIN"
  by (simp_all add: LOGIN_def DAILY_CLAIM_def DAILY_INFO_def)

lemma prefix_claim_urls:
  assumes "prefix (map (\<lambda>c. (url (fst c), payload (fst c))) new)
             (map (\<lambda>t. (DAILY_CLAIM, claim_payload (tier_num t))) tiers)"
  shows "\<forall>c \<in> set new. url (fst c) = DAILY_CLAIM"
proof
  fix c assume "c \<in> set new"
  then have "(url (fst c), payload (fst c)) \<in> set (map (\<lambda>c. (url (fst c), payload (fst c))) new)"
    by force
  with set_mono_prefix [OF assms]
  have "(url (fst c), payload (fst c)) \<in> set (map (\<lambda>t. (DAILY_CLAIM, claim_payload (tier_num t))) tiers)"
    by blast
  then show "url (fst c) = DAILY_CLAIM" by auto
qed

lemma prefix_claim_payloads:
  assumes "prefix (map (\<lambda>c. (url (fst c), payload (fst c))) new)
             (map (\<lambda>t. (DAILY_CLAIM, claim_payload (tier_num t))) tiers)"
  shows "prefix (map (\<lambda>c. payload (fst c)) new) (map claim_payload (map tier_num tiers))"
proof -
  from map_mono_prefix [OF assms, of snd] show ?thesis by (simp add: o_def)
qed

lemma claim_calls_stage3:
  assumes "calls s = ca # cb # new" "url (fst ca) = LOGIN" "url (fst cb) = DAILY_INFO"
    and "\<forall>c \<in> set new. url (fst c) = DAILY_CLAIM"
  shows "claim_calls s = new"
  using assms by (simp add: claim_calls_def urls_distinct)

lemma strings_not_complete: "filter tier_complete (map (\<lambda>x. JStr (f x)) xs) = []"
  by (induction xs) (simp_all add: tier_complete_def)

lemma tiers_of_tier_list:
  "tiers_of info = Inr tiers \<Longrightarrow> filter tier_complete tiers = filter tier_complete (tier_list info)"
  by (auto simp: tiers_of_def tier_list_def result_field_def dict_get_def py_iter_def
        strings_not_complete split: json.splits option.splits sum.splits if_splits)

lemma prefix_claim_nums:
  assumes "prefix (map (\<lambda>c. (url (fst c), payload (fst c))) new)
             (map (\<lambda>t. (DAILY_CLAIM, claim_payload (tier_num t))) tiers)"
  shows "prefix (map (\<lambda>c. claim_num (fst c)) new) (map tier_num tiers)"
proof -
  let ?f = "\<lambda>up. case snd up of
              JObj kvs \<Rightarrow> (case map_of kvs ''workInfoReadingNum'' of Some v \<Rightarrow> v | None \<Rightarrow> JNull)
            | _ \<Rightarrow> JNull"
  from map_mono_prefix [OF assms, of ?f] show ?thesis
    by (simp add: o_def claim_num_def claim_payload_def)
qed

lemma attempts_subseq:
  "subseq (map tier (attempt_records new)) (map (\<lambda>c. claim_num (fst c)) new)"
  by (induction new) (auto simp: attempt_records_def attempt_of_def split: reply.splits)

lemma claimed_subseq:
  "subseq (claimed_nums new) (map (\<lambda>c. claim_num (fst c)) new)"
  by (induction new) (auto simp: claimed_nums_def)

lemma run_cases:
  fixes net :: service
  obtains (rejected) "login_rejected (net 0)"
  | (info_failed) "\<not> login_rejected (net 0)" "call_failed (net 1)"
  | (stage3) r1 where "\<not> login_rejected (net 0)" "net 1 = Responded r1" "\<not> call_failed (Responded r1)"
  by (cases "net (1::nat)") (auto simp: call_failed_def)

lemma run_rejected_facts:
  assumes "login_rejected (net 0)"
  obtains res s ca where "run L net now cred cfg = (Inr res, s)"
    "calls s = [ca]" "url (fst ca) = LOGIN"
    "payload (fst ca) = JObj [(''phone'', JStr (cred_phone cred)),
        (''password'', JStr (md5_hexdigest L (password cfg @ cred_code cred)))]"
    "claim_responses res = None" "claimed_tiers res = None" "info_response res = None"
proof -
  from run_login_rejected [where net=net and L=L and now=now and cred=cred and cfg=cfg, OF assms]
  obtain e where run: "run L net now cred cfg =
           (Inr ((out (login_state L net cred cfg (init_state now cred cfg)))
                  \<lparr> errors := [\<lparr> stage = ''login'', error = e, err_response = None \<rparr>] \<rparr>),
            (login_state L net cred cfg (init_state now cred cfg))
              \<lparr> out := (out (login_state L net cred cfg (init_state now cred cfg)))
                  \<lparr> errors := [\<lparr> stage = ''login'', error = e, err_response = None \<rparr>] \<rparr> \<rparr>)"
    by blast
  let ?ca = "(\<lparr> url = LOGIN,
                payload = JObj [(''phone'', JStr (cred_phone cred)),
                   (''password'', JStr (md5_hexdigest L (password cfg @ cred_code cred)))],
                rq_headers = headers (make_session cfg), rq_timeout = timeout cfg \<rparr>, net 0)"
  show ?thesis
    by (rule that [OF run, where ca="?ca"])
       (simp_all add: calls_login_state out_login_state init_state_def split: reply.splits)
qed

lemma run_info_failed_facts:
  assumes "\<not> login_rejected (net 0)" and "call_failed (net 1)"
  obtains res s ca cb where "run L net now cred cfg = (Inr res, s)"
    "calls s = [ca, cb]" "url (fst ca) = LOGIN" "url (fst cb) = DAILY_INFO"
    "payload (fst ca) = JObj [(''phone'', JStr (cred_phone cred)),
        (''password'', JStr (md5_hexdigest L (password cfg @ cred_code cred)))]"
    "claim_responses res = None" "claimed_tiers res = None"
proof -
  from run_info_failed [where net=net and L=L and now=now and cred=cred and cfg=cfg, OF assms]
  obtain e hs where run: "run L net now cred cfg =
      (Inr ((out (info_state net cfg ((login_state L net cred cfg (init_state now cred cfg))
                \<lparr> sess := (make_session cfg)\<lparr> headers := hs \<rparr> \<rparr>)))
             \<lparr> errors := [\<lparr> stage = ''fetch_info'', error = e, err_response = None \<rparr>] \<rparr>),
       (info_state net cfg ((login_state L net cred cfg (init_state now cred cfg))
                \<lparr> sess := (make_session cfg)\<lparr> headers := hs \<rparr> \<rparr>))
         \<lparr> out := (out (info_state net cfg ((login_state L net cred cfg (init_state now cred cfg))
                \<lparr> sess := (make_session cfg)\<lparr> headers := hs \<rparr> \<rparr>)))
             \<lparr> errors := [\<lparr> stage = ''fetch_info'', error = e, err_response = None \<rparr>] \<rparr> \<rparr>)"
    by blast
  let ?ca = "(\<lparr> url = LOGIN,
                payload = JObj [(''phone'', JStr (cred_phone cred)),
                   (''password'', JStr (md5_hexdigest L (password cfg @ cred_code cred)))],
                rq_headers = headers (make_session cfg), rq_timeout = timeout cfg \<rparr>, net 0)"
  let ?cb = "(\<lparr> url = DAILY_INFO, payload = JObj [],
                rq_headers = hs, rq_timeout = timeout cfg \<rparr>, net 1)"
  show ?thesis
    by (rule that [OF run, where ca="?ca" and cb="?cb"])
       (simp_all add: calls_info_state out_info_state calls_login_state out_login_state
          init_state_def split: reply.splits)
qed

lemma pipeline_returns: "\<exists>res. fst (pipeline L net cred cfg s) = Inr res"
  unfolding pipeline_def
  by (auto simp: monad_defs append_error_def split: prod.splits sum.splits option.splits)

lemma collect_all:
  "\<forall>f \<in> set futs. \<exists>res. f = Inr res \<Longrightarrow>
   \<exists>rs. collect futs acc = Inr (acc @ rs) \<and> map Inr rs = futs"
proof (induction futs arbitrary: acc)
  case Nil
  then show ?case by simp
next
  case (Cons f futs)
  then obtain res where f: "f = Inr res" by auto
  from Cons obtain rs where "collect futs (acc @ [res]) = Inr ((acc @ [res]) @ rs) \<and> map Inr rs = futs"
    by (metis list.set_intros(2))
  then show ?case using f by (intro exI [of _ "res # rs"]) simp
qed

lemma login_and_claim_returns: "\<exists>res. login_and_claim L net now cred cfg = Inr res"
  using pipeline_returns [of L net cred cfg "init_state now cred cfg"]
  by (simp add: login_and_claim_def run_def)

section \<open>Login failure\<close>

text \<open>
  C1, as the code has it: when the login call raises or returns a client or server
  error status (400 to 599), or the decoded body is missing the authorization token
  or the token-type prefix, the pipeline records one error record of stage
  \<^verbatim>\<open>login\<close> and returns at once. The outcome then has no info fields, no claim
  records and no claimed tiers, the login record is its only error record, and the
  login call is the only call made. The member id is not among the fields the code
  requires, and a status that is neither 2xx nor an error status does not fail the
  login.
\<close>

theorem login_failure_stops_pipeline:
  assumes "login_rejected (net 0)"
  shows "\<exists>e. login_and_claim L net now cred cfg =
           Inr \<lparr> phone = cred_phone cred, ts = now,
                 errors = [\<lparr> stage = ''login'', error = e, err_response = None \<rparr>],
                 login_status_code =
                   (case net 0 of Raised x \<Rightarrow> None | Responded r \<Rightarrow> Some (status_code r)),
                 login_response =
                   (case net 0 of Raised x \<Rightarrow> None | Responded r \<Rightarrow> Some (decoded_body r)),
                 info_status_code = None, info_response = None,
                 claim_responses = None, claimed_tiers = None \<rparr>
         \<and> map (\<lambda>c. url (fst c)) (calls (snd (run L net now cred cfg))) = [LOGIN]"
proof -
  from run_login_rejected [where net=net and L=L and now=now and cred=cred and cfg=cfg, OF assms] obtain e where
    "run L net now cred cfg =
           (Inr ((out (login_state L net cred cfg (init_state now cred cfg)))
                  \<lparr> errors := [\<lparr> stage = ''login'', error = e, err_response = None \<rparr>] \<rparr>),
            (login_state L net cred cfg (init_state now cred cfg))
              \<lparr> out := (out (login_state L net cred cfg (init_state now cred cfg)))
                  \<lparr> errors := [\<lparr> stage = ''login'', error = e, err_response = None \<rparr>] \<rparr> \<rparr>)"
    by blast
  then show ?thesis
    by (intro exI [of _ e])
       (simp add: login_and_claim_def calls_login_state out_login_state init_state_def
          split: reply.splits)
qed

text \<open>
  An instance of C1: the login call is answered with status 401.
\<close>

theorem login_failure_stops_pipeline_witness:
  "login_rejected (net_unauthorized 0)
   \<and> (\<exists>e. login_and_claim lib0 net_unauthorized ''t0'' cred0 cfg0 =
           Inr \<lparr> phone = ''09582811870'', ts = ''t0'',
                 errors = [\<lparr> stage = ''login'', error = e, err_response = None \<rparr>],
                 login_status_code = Some 401, login_response = Some (JObj []),
                 info_status_code = None, info_response = None,
                 claim_responses = None, claimed_tiers = None \<rparr>
         \<and> map (\<lambda>c. url (fst c)) (calls (snd (run lib0 net_unauthorized ''t0'' cred0 cfg0))) = [LOGIN])"
proof -
  have h: "login_rejected (net_unauthorized 0)" by code_simp
  have v: "net_unauthorized 0 = Responded \<lparr> status_code = 401, resp_text = [], decoded = Some (JObj []) \<rparr>"
    by code_simp
  from login_failure_stops_pipeline [where net=net_unauthorized and L=lib0 and now="''t0''"
      and cred=cred0 and cfg=cfg0, OF h] h
  show ?thesis
    by (simp add: v cred0_def decoded_body_def safe_json_def resp_json_def)
qed

text \<open>
  C1 as stated does not hold: a login body with token and prefix but without the
  member id is accepted, and so is a login response of status 304. Both runs go on
  to the info call and record no error.
\<close>

theorem login_needs_no_member_id_and_accepts_3xx:
  "result_field login_json_no_id ''sysUserId'' = None
   \<and> login_and_claim lib0 (script [replied 200 login_json_no_id, replied 200 (info_json [])])
         ''t0'' cred0 cfg0
     = Inr \<lparr> phone = ''09582811870'', ts = ''t0'', errors = [],
             login_status_code = Some 200, login_response = Some login_json_no_id,
             info_status_code = Some 200, info_response = Some (info_json []),
             claim_responses = None, claimed_tiers = Some [] \<rparr>
   \<and> login_and_claim lib0 (script [replied 304 login_json, replied 200 (info_json [])])
         ''t0'' cred0 cfg0
     = Inr \<lparr> phone = ''09582811870'', ts = ''t0'', errors = [],
             login_status_code = Some 304, login_response = Some login_json,
             info_status_code = Some 200, info_response = Some (info_json []),
             claim_responses = None, claimed_tiers = Some [] \<rparr>"
  by code_simp

section \<open>Info fetch failure\<close>

text \<open>
  C6, as the code has it: when the login is accepted and the info call raises or
  returns a client or server error status (400 to 599), the pipeline records one
  error record of stage \<^verbatim>\<open>fetch_info\<close> and returns at once. That record is the
  only error record, there are no claim records and no claimed tiers, and no call
  follows the info call.
\<close>

theorem info_failure_stops_pipeline:
  assumes "\<not> login_rejected (net 0)" and "call_failed (net 1)"
  shows "\<exists>e r0. net 0 = Responded r0
         \<and> login_and_claim L net now cred cfg =
           Inr \<lparr> phone = cred_phone cred, ts = now,
                 errors = [\<lparr> stage = ''fetch_info'', error = e, err_response = None \<rparr>],
                 login_status_code = Some (status_code r0),
                 login_response = Some (decoded_body r0),
                 info_status_code =
                   (case net 1 of Raised x \<Rightarrow> None | Responded r \<Rightarrow> Some (status_code r)),
                 info_response =
                   (case net 1 of Raised x \<Rightarrow> None | Responded r \<Rightarrow> Some (decoded_body r)),
                 claim_responses = None, claimed_tiers = None \<rparr>
         \<and> map (\<lambda>c. url (fst c)) (calls (snd (run L net now cred cfg))) = [LOGIN, DAILY_INFO]"
proof -
  from assms(1) obtain r0 where r0: "net 0 = Responded r0"
    by (cases "net 0") (simp_all add: login_rejected_def call_failed_def)
  from run_info_failed [where net=net and L=L and now=now and cred=cred and cfg=cfg, OF assms]
  obtain e hs where run: "run L net now cred cfg =
      (Inr ((out (info_state net cfg ((login_state L net cred cfg (init_state now cred cfg))
                \<lparr> sess := (make_session cfg)\<lparr> headers := hs \<rparr> \<rparr>)))
             \<lparr> errors := [\<lparr> stage = ''fetch_info'', error = e, err_response = None \<rparr>] \<rparr>),
       (info_state net cfg ((login_state L net cred cfg (init_state now cred cfg))
                \<lparr> sess := (make_session cfg)\<lparr> headers := hs \<rparr> \<rparr>))
         \<lparr> out := (out (info_state net cfg ((login_state L net cred cfg (init_state now cred cfg))
                \<lparr> sess := (make_session cfg)\<lparr> headers := hs \<rparr> \<rparr>)))
             \<lparr> errors := [\<lparr> stage = ''fetch_info'', error = e, err_response = None \<rparr>] \<rparr> \<rparr>)"
    by blast
  show ?thesis
    using r0
    by (intro exI [of _ e] exI [of _ r0])
       (simp add: login_and_claim_def run calls_info_state out_info_state
          calls_login_state out_login_state init_state_def split: reply.splits)
qed

text \<open>
  An instance of C6: the info call times out.
\<close>

theorem info_failure_stops_pipeline_witness:
  "\<not> login_rejected (net_info_timeout 0) \<and> call_failed (net_info_timeout 1)
   \<and> (\<exists>e. login_and_claim lib0 net_info_timeout ''t0'' cred0 cfg0 =
           Inr \<lparr> phone = ''09582811870'', ts = ''t0'',
                 errors = [\<lparr> stage = ''fetch_info'', error = e, err_response = None \<rparr>],
                 login_status_code = Some 200, login_response = Some login_json,
                 info_status_code = None, info_response = None,
                 claim_responses = None, claimed_tiers = None \<rparr>
         \<and> map (\<lambda>c. url (fst c)) (calls (snd (run lib0 net_info_timeout ''t0'' cred0 cfg0)))
             = [LOGIN, DAILY_INFO])"
proof -
  have h0: "\<not> login_rejected (net_info_timeout 0)" by code_simp
  have h1: "call_failed (net_info_timeout 1)" by code_simp
  have v0: "net_info_timeout 0 = Responded \<lparr> status_code = 200, resp_text = [], decoded = Some login_json \<rparr>"
    by code_simp
  have v1: "net_info_timeout (Suc 0) = Raised Timeout" by code_simp
  from info_failure_stops_pipeline [where net=net_info_timeout and L=lib0 and now="''t0''"
      and cred=cred0 and cfg=cfg0, OF h0 h1] h0 h1
  show ?thesis
    by (auto simp: v0 v1 cred0_def decoded_body_def safe_json_def resp_json_def)
qed

text \<open>
  C6 as stated does not hold for a status that is neither 2xx nor an error status:
  an info response of status 304 is taken as a success, and the tier it lists is
  claimed.
\<close>

theorem info_with_3xx_status_goes_on_to_claims:
  "login_and_claim lib0
     (script [replied 200 login_json, replied 304 (info_json [tier_rec 5 ''complete'']),
              replied 200 (JObj [])]) ''t0'' cred0 cfg0
   = Inr \<lparr> phone = ''09582811870'', ts = ''t0'', errors = [],
           login_status_code = Some 200, login_response = Some login_json,
           info_status_code = Some 304,
           info_response = Some (info_json [tier_rec 5 ''complete'']),
           claim_responses = Some [\<lparr> tier = JInt 5, cr_status_code = 200, cr_response = JObj [] \<rparr>],
           claimed_tiers = Some [JInt 5] \<rparr>"
  by code_simp

section \<open>A claim call that raises before any response was obtained\<close>

text \<open>
  C2: two tiers are complete, the claim call for tier 5 raises a transport error
  and the claim call for tier 10 would succeed. The handler of the claim call reads
  the local \<^verbatim>\<open>rr\<close>, which is unbound; the outer handler catches that, so the only
  error record is the one of stage \<^verbatim>\<open>claim_loop\<close>, no record is scoped to tier 5,
  tier 10 is never attempted and the claimed tiers are not set.
\<close>

theorem first_claim_raises_aborts_loop:
  "login_and_claim lib0
     (script [replied 200 login_json,
              replied 200 (info_json [tier_rec 5 ''complete'', tier_rec 10 ''complete'']),
              Raised ConnectionError,
              replied 200 (JObj [])]) ''t0'' cred0 cfg0
   = Inr \<lparr> phone = ''09582811870'', ts = ''t0'',
           errors = [\<lparr> stage = ''claim_loop'', error = UnboundLocalError ''rr'',
                       err_response = None \<rparr>],
           login_status_code = Some 200, login_response = Some login_json,
           info_status_code = Some 200,
           info_response = Some (info_json [tier_rec 5 ''complete'', tier_rec 10 ''complete'']),
           claim_responses = None, claimed_tiers = None \<rparr>
   \<and> map (\<lambda>c. payload (fst c))
         (claim_calls (snd (run lib0
            (script [replied 200 login_json,
                     replied 200 (info_json [tier_rec 5 ''complete'', tier_rec 10 ''complete'']),
                     Raised ConnectionError,
                     replied 200 (JObj [])]) ''t0'' cred0 cfg0)))
       = [claim_payload (JInt 5)]"
  by code_simp

section \<open>Which tiers are claimed\<close>

text \<open>
  C3: in every run, claim requests are issued only for the tiers of the fetched
  list whose status is exactly "complete", in the order of the list (the requests
  are a prefix of them, since the loop may stop early). The tiers of the attempt
  records and the claimed tiers are subsequences of the identifiers of those
  tiers.
\<close>

theorem claims_only_for_complete_tiers:
  "\<exists>res s. run L net now cred cfg = (Inr res, s)
     \<and> prefix (map (\<lambda>c. payload (fst c)) (claim_calls s)) (map claim_payload (eligible res))
     \<and> subseq (map tier (attempts res)) (eligible res)
     \<and> subseq (case claimed_tiers res of None \<Rightarrow> [] | Some cs \<Rightarrow> cs) (eligible res)"
proof (cases rule: run_cases [of net])
  case rejected
  show ?thesis
  proof (rule run_rejected_facts [where net=net and L=L and now=now and cred=cred and cfg=cfg, OF rejected])
    fix res s ca
    assume "run L net now cred cfg = (Inr res, s)"
      "calls s = [ca]" "url (fst ca) = LOGIN"
      "claim_responses res = None" "claimed_tiers res = None" "info_response res = None"
    then show ?thesis
      by (intro exI [of _ res] exI [of _ s])
         (simp add: claim_calls_def urls_distinct attempts_def eligible_def)
  qed
next
  case info_failed
  show ?thesis
  proof (rule run_info_failed_facts [where net=net and L=L and now=now and cred=cred and cfg=cfg, OF info_failed])
    fix res s ca cb
    assume "run L net now cred cfg = (Inr res, s)"
      "calls s = [ca, cb]" "url (fst ca) = LOGIN" "url (fst cb) = DAILY_INFO"
      "claim_responses res = None" "claimed_tiers res = None"
    then show ?thesis
      by (intro exI [of _ res] exI [of _ s])
         (simp add: claim_calls_def urls_distinct attempts_def)
  qed
next
  case (stage3 r1)
  show ?thesis
  proof (rule run_stage3 [where net=net and L=L and now=now and cred=cred and cfg=cfg, OF stage3])
  fix res s new es tail ca cb
  assume run: "run L net now cred cfg = (Inr res, s)"
    and calls: "calls s = ca # cb # new" "url (fst ca) = LOGIN" "url (fst cb) = DAILY_INFO"
    and info: "info_response res = Some (decoded_body r1)"
    and att: "attempts res = attempt_records new"
    and tiers: "case tiers_of (decoded_body r1) of
       Inl e \<Rightarrow> new = [] \<and> tail = [claim_loop_record e] \<and> claimed_tiers res = None
     | Inr tiers \<Rightarrow>
         prefix (map (\<lambda>c. (url (fst c), payload (fst c))) new)
           (map (\<lambda>t. (DAILY_CLAIM, claim_payload (tier_num t))) (filter tier_complete tiers))
         \<and> ((tail = [] \<and> claimed_tiers res = Some (claimed_nums new) \<and> list_all is_dict tiers
              \<and> length new = length (filter tier_complete tiers))
            \<or> (\<exists>e. tail = [claim_loop_record e] \<and> claimed_tiers res = None))"
  show ?thesis
  proof (cases "tiers_of (decoded_body r1)")
    case (Inl e)
    with tiers have "new = []" "claimed_tiers res = None" by simp_all
    with run calls att show ?thesis
      by (intro exI [of _ res] exI [of _ s])
         (simp add: claim_calls_def urls_distinct attempt_records_def)
  next
    case (Inr tiers')
    with tiers have pre: "prefix (map (\<lambda>c. (url (fst c), payload (fst c))) new)
           (map (\<lambda>t. (DAILY_CLAIM, claim_payload (tier_num t))) (filter tier_complete tiers'))"
      and ct: "claimed_tiers res = Some (claimed_nums new) \<or> claimed_tiers res = None"
      by auto
    have el: "eligible res = map tier_num (filter tier_complete tiers')"
      using info tiers_of_tier_list [OF Inr] by (simp add: eligible_def)
    have cc: "claim_calls s = new"
      using claim_calls_stage3 [OF calls prefix_claim_urls [OF pre]] .
    have nums: "prefix (map (\<lambda>c. claim_num (fst c)) new) (eligible res)"
      using prefix_claim_nums [OF pre] el by simp
    have p1: "prefix (map (\<lambda>c. payload (fst c)) (claim_calls s)) (map claim_payload (eligible res))"
      using prefix_claim_payloads [OF pre] el cc by simp
    have p2: "subseq (map tier (attempts res)) (eligible res)"
      using attempts_subseq [of new] prefix_imp_subseq [OF nums] att
      by (metis subseq_order.trans)
    have p3: "subseq (case claimed_tiers res of None \<Rightarrow> [] | Some cs \<Rightarrow> cs) (eligible res)"
    proof (cases "claimed_tiers res")
      case None
      then show ?thesis by simp
    next
      case (Some cs)
      with ct have "cs = claimed_nums new" by simp
      with Some claimed_subseq [of new] prefix_imp_subseq [OF nums] show ?thesis
        by (metis option.simps(5) subseq_order.trans)
    qed
    from run p1 p2 p3 show ?thesis by blast
  qed
qed
qed

text \<open>
  C5, as the code has it: in every run, the claimed tiers, when they are set, are
  exactly the identifiers of the claim calls that neither raised nor returned a
  status from 400 to 599, in the order of the calls; and the attempt records are
  those of the claim calls that returned a response.
\<close>

theorem claimed_tiers_are_the_successful_calls:
  "\<exists>res s. run L net now cred cfg = (Inr res, s)
     \<and> attempts res = attempt_records (claim_calls s)
     \<and> (claimed_tiers res = None \<or> claimed_tiers res = Some (claimed_nums (claim_calls s)))"
proof (cases rule: run_cases [of net])
  case rejected
  show ?thesis
  proof (rule run_rejected_facts [where net=net and L=L and now=now and cred=cred and cfg=cfg, OF rejected])
    fix res s ca
    assume "run L net now cred cfg = (Inr res, s)"
      "calls s = [ca]" "url (fst ca) = LOGIN"
      "claim_responses res = None" "claimed_tiers res = None"
    then show ?thesis
      by (intro exI [of _ res] exI [of _ s])
         (simp add: claim_calls_def urls_distinct attempts_def attempt_records_def)
  qed
next
  case info_failed
  show ?thesis
  proof (rule run_info_failed_facts [where net=net and L=L and now=now and cred=cred and cfg=cfg, OF info_failed])
    fix res s ca cb
    assume "run L net now cred cfg = (Inr res, s)"
      "calls s = [ca, cb]" "url (fst ca) = LOGIN" "url (fst cb) = DAILY_INFO"
      "claim_responses res = None" "claimed_tiers res = None"
    then show ?thesis
      by (intro exI [of _ res] exI [of _ s])
         (simp add: claim_calls_def urls_distinct attempts_def attempt_records_def)
  qed
next
  case (stage3 r1)
  show ?thesis
  proof (rule run_stage3 [where net=net and L=L and now=now and cred=cred and cfg=cfg, OF stage3])
    fix res s new es tail ca cb
    assume run: "run L net now cred cfg = (Inr res, s)"
      and calls: "calls s = ca # cb # new" "url (fst ca) = LOGIN" "url (fst cb) = DAILY_INFO"
      and att: "attempts res = attempt_records new"
      and tiers: "case tiers_of (decoded_body r1) of
         Inl e \<Rightarrow> new = [] \<and> tail = [claim_loop_record e] \<and> claimed_tiers res = None
       | Inr tiers \<Rightarrow>
           prefix (map (\<lambda>c. (url (fst c), payload (fst c))) new)
             (map (\<lambda>t. (DAILY_CLAIM, claim_payload (tier_num t))) (filter tier_complete tiers))
           \<and> ((tail = [] \<and> claimed_tiers res = Some (claimed_nums new) \<and> list_all is_dict tiers
                \<and> length new = length (filter tier_complete tiers))
              \<or> (\<exists>e. tail = [claim_loop_record e] \<and> claimed_tiers res = None))"
    have urls: "\<forall>c \<in> set new. url (fst c) = DAILY_CLAIM"
      using tiers prefix_claim_urls by (cases "tiers_of (decoded_body r1)") auto
    have cc: "claim_calls s = new" using claim_calls_stage3 [OF calls urls] .
    have "claimed_tiers res = None \<or> claimed_tiers res = Some (claimed_nums new)"
      using tiers by (cases "tiers_of (decoded_body r1)") auto
    with run att cc show ?thesis by auto
  qed
qed

text \<open>
  C5 as stated does not hold for a status that is neither 2xx nor an error status:
  a claim call answered with status 304 puts its tier among the claimed tiers.
\<close>

theorem claim_with_3xx_status_counts_as_claimed:
  "login_and_claim lib0
     (script [replied 200 login_json, replied 200 (info_json [tier_rec 5 ''complete'']),
              replied 304 (JObj [])]) ''t0'' cred0 cfg0
   = Inr \<lparr> phone = ''09582811870'', ts = ''t0'', errors = [],
           login_status_code = Some 200, login_response = Some login_json,
           info_status_code = Some 200,
           info_response = Some (info_json [tier_rec 5 ''complete'']),
           claim_responses = Some [\<lparr> tier = JInt 5, cr_status_code = 304, cr_response = JObj [] \<rparr>],
           claimed_tiers = Some [JInt 5] \<rparr>"
  by code_simp

section \<open>Failure of the claim loop\<close>

text \<open>
  C7: when login and info fetch succeed and the tier list cannot be built, or
  holds an item that is not a tier record, the exception is caught and recorded
  last, as the one error record of stage \<^verbatim>\<open>claim_loop\<close> that carries no response;
  the claimed tiers are not set; and the outcome holds the attempt record of every
  claim call that returned a response.
\<close>

theorem tier_list_failure_keeps_attempts:
  assumes acc: "\<not> login_rejected (net 0)"
    and r1: "net 1 = Responded r1"
    and ok: "\<not> call_failed (Responded r1)"
    and bad: "case tiers_of (decoded_body r1) of
                Inl e \<Rightarrow> True
              | Inr tiers \<Rightarrow> \<not> list_all is_dict tiers"
  shows "\<exists>res s es e. run L net now cred cfg = (Inr res, s)
     \<and> errors res = es @ [claim_loop_record e]
     \<and> (\<forall>x \<in> set es. err_response x \<noteq> None)
     \<and> claimed_tiers res = None
     \<and> attempts res = attempt_records (claim_calls s)"
proof (rule run_stage3 [where net=net and L=L and now=now and cred=cred and cfg=cfg, OF acc r1 ok])
  fix res s new es tail ca cb
  assume run: "run L net now cred cfg = (Inr res, s)"
    and calls: "calls s = ca # cb # new" "url (fst ca) = LOGIN" "url (fst cb) = DAILY_INFO"
    and att: "attempts res = attempt_records new"
    and errs: "errors res = es @ tail" "\<forall>x \<in> set es. err_response x \<noteq> None"
    and tiers: "case tiers_of (decoded_body r1) of
       Inl e \<Rightarrow> new = [] \<and> tail = [claim_loop_record e] \<and> claimed_tiers res = None
     | Inr tiers \<Rightarrow>
         prefix (map (\<lambda>c. (url (fst c), payload (fst c))) new)
           (map (\<lambda>t. (DAILY_CLAIM, claim_payload (tier_num t))) (filter tier_complete tiers))
         \<and> ((tail = [] \<and> claimed_tiers res = Some (claimed_nums new) \<and> list_all is_dict tiers
              \<and> length new = length (filter tier_complete tiers))
            \<or> (\<exists>e. tail = [claim_loop_record e] \<and> claimed_tiers res = None))"
  have urls: "\<forall>c \<in> set new. url (fst c) = DAILY_CLAIM"
    using tiers prefix_claim_urls by (cases "tiers_of (decoded_body r1)") auto
  have cc: "claim_calls s = new" using claim_calls_stage3 [OF calls urls] .
  from tiers bad obtain e where "tail = [claim_loop_record e]" "claimed_tiers res = None"
    by (cases "tiers_of (decoded_body r1)") auto
  with run att errs cc show ?thesis
    by (intro exI [of _ res] exI [of _ s] exI [of _ es] exI [of _ e]) simp
qed

text \<open>
  An instance of C7: the second item of the tier list is a string. The attempt for
  tier 5, made before the failure, is in the outcome.
\<close>

theorem tier_list_failure_keeps_attempts_witness:
  "\<not> login_rejected (net_bad_tier 0)
   \<and> net_bad_tier 1 = Responded \<lparr> status_code = 200, resp_text = [],
          decoded = Some (info_json [tier_rec 5 ''complete'', JStr ''x'']) \<rparr>
   \<and> (\<exists>res s es e. run lib0 net_bad_tier ''t0'' cred0 cfg0 = (Inr res, s)
         \<and> errors res = es @ [claim_loop_record e]
         \<and> (\<forall>x \<in> set es. err_response x \<noteq> None)
         \<and> claimed_tiers res = None
         \<and> attempts res = attempt_records (claim_calls s))
   \<and> attempts (projr (login_and_claim lib0 net_bad_tier ''t0'' cred0 cfg0))
       = [\<lparr> tier = JInt 5, cr_status_code = 200, cr_response = JObj [] \<rparr>]"
proof -
  let ?r1 = "\<lparr> status_code = 200, resp_text = [],
          decoded = Some (info_json [tier_rec 5 ''complete'', JStr ''x'']) \<rparr>"
  have h0: "\<not> login_rejected (net_bad_tier 0)" by code_simp
  have h1: "net_bad_tier 1 = Responded ?r1" by code_simp
  have h2: "\<not> call_failed (Responded ?r1)" by code_simp
  have h3: "case tiers_of (decoded_body ?r1) of
                Inl e \<Rightarrow> True
              | Inr tiers \<Rightarrow> \<not> list_all is_dict tiers" by code_simp
  have h4: "attempts (projr (login_and_claim lib0 net_bad_tier ''t0'' cred0 cfg0))
       = [\<lparr> tier = JInt 5, cr_status_code = 200, cr_response = JObj [] \<rparr>]" by code_simp
  from tier_list_failure_keeps_attempts [where net=net_bad_tier and L=lib0 and now="''t0''"
      and cred=cred0 and cfg=cfg0 and ?r1.0="?r1", OF h0 h1 h2 h3] h0 h1 h4
  show ?thesis by blast
qed

text \<open>
  C9: in a run that reaches stage 3, the claimed tiers are set if and only if the
  outer handler has recorded nothing; when they are not set, the record of the outer
  handler is the last error record, and the attempts made so far are still in the
  outcome. The record of the outer handler is told apart by its missing response:
  the handler of a single claim call names its stage after the tier and always
  records a response.
\<close>

theorem claimed_tiers_present_iff_loop_completes:
  assumes acc: "\<not> login_rejected (net 0)"
    and r1: "net 1 = Responded r1"
    and ok: "\<not> call_failed (Responded r1)"
  shows "\<exists>res s. run L net now cred cfg = (Inr res, s)
     \<and> ((claimed_tiers res \<noteq> None) = (\<forall>e. claim_loop_record e \<notin> set (errors res)))
     \<and> (claimed_tiers res = None \<longrightarrow>
          (\<exists>es e. errors res = es @ [claim_loop_record e])
          \<and> attempts res = attempt_records (claim_calls s))"
proof (rule run_stage3 [where net=net and L=L and now=now and cred=cred and cfg=cfg, OF acc r1 ok])
  fix res s new es tail ca cb
  assume run: "run L net now cred cfg = (Inr res, s)"
    and calls: "calls s = ca # cb # new" "url (fst ca) = LOGIN" "url (fst cb) = DAILY_INFO"
    and att: "attempts res = attempt_records new"
    and errs: "errors res = es @ tail" "\<forall>x \<in> set es. err_response x \<noteq> None"
    and tiers: "case tiers_of (decoded_body r1) of
       Inl e \<Rightarrow> new = [] \<and> tail = [claim_loop_record e] \<and> claimed_tiers res = None
     | Inr tiers \<Rightarrow>
         prefix (map (\<lambda>c. (url (fst c), payload (fst c))) new)
           (map (\<lambda>t. (DAILY_CLAIM, claim_payload (tier_num t))) (filter tier_complete tiers))
         \<and> ((tail = [] \<and> claimed_tiers res = Some (claimed_nums new) \<and> list_all is_dict tiers
              \<and> length new = length (filter tier_complete tiers))
            \<or> (\<exists>e. tail = [claim_loop_record e] \<and> claimed_tiers res = None))"
  have urls: "\<forall>c \<in> set new. url (fst c) = DAILY_CLAIM"
    using tiers prefix_claim_urls by (cases "tiers_of (decoded_body r1)") auto
  have cc: "claim_calls s = new" using claim_calls_stage3 [OF calls urls] .
  have notin: "claim_loop_record e \<notin> set es" for e
    using errs(2) by (auto simp: claim_loop_record_def)
  have alt: "(tail = [] \<and> claimed_tiers res \<noteq> None)
           \<or> (\<exists>e. tail = [claim_loop_record e] \<and> claimed_tiers res = None)"
    using tiers by (cases "tiers_of (decoded_body r1)") auto
  then show ?thesis
  proof
    assume "tail = [] \<and> claimed_tiers res \<noteq> None"
    with run errs notin show ?thesis
      by (intro exI [of _ res] exI [of _ s]) auto
  next
    assume "\<exists>e. tail = [claim_loop_record e] \<and> claimed_tiers res = None"
    then obtain e where "tail = [claim_loop_record e]" "claimed_tiers res = None" by blast
    with run errs att cc show ?thesis
      by (intro exI [of _ res] exI [of _ s]) auto
  qed
qed

text \<open>
  An instance of C9: tier 5 is claimed with success, then the loop fails on the
  next item. The claimed tiers are not set, and the success shows only in the
  attempt records.
\<close>

theorem claimed_tiers_present_iff_loop_completes_witness:
  "\<not> login_rejected (net_bad_tier 0)
   \<and> net_bad_tier 1 = Responded \<lparr> status_code = 200, resp_text = [],
          decoded = Some (info_json [tier_rec 5 ''complete'', JStr ''x'']) \<rparr>
   \<and> (\<exists>res s. run lib0 net_bad_tier ''t0'' cred0 cfg0 = (Inr res, s)
     \<and> ((claimed_tiers res \<noteq> None) = (\<forall>e. claim_loop_record e \<notin> set (errors res)))
     \<and> (claimed_tiers res = None \<longrightarrow>
          (\<exists>es e. errors res = es @ [claim_loop_record e])
          \<and> attempts res = attempt_records (claim_calls s)))
   \<and> login_and_claim lib0 net_bad_tier ''t0'' cred0 cfg0
     = Inr \<lparr> phone = ''09582811870'', ts = ''t0'',
             errors = [claim_loop_record AttributeError],
             login_status_code = Some 200, login_response = Some login_json,
             info_status_code = Some 200,
             info_response = Some (info_json [tier_rec 5 ''complete'', JStr ''x'']),
             claim_responses = Some [\<lparr> tier = JInt 5, cr_status_code = 200, cr_response = JObj [] \<rparr>],
             claimed_tiers = None \<rparr>"
proof -
  let ?r1 = "\<lparr> status_code = 200, resp_text = [],
          decoded = Some (info_json [tier_rec 5 ''complete'', JStr ''x'']) \<rparr>"
  have h0: "\<not> login_rejected (net_bad_tier 0)" by code_simp
  have h1: "net_bad_tier 1 = Responded ?r1" by code_simp
  have h2: "\<not> call_failed (Responded ?r1)" by code_simp
  have h4: "login_and_claim lib0 net_bad_tier ''t0'' cred0 cfg0
     = Inr \<lparr> phone = ''09582811870'', ts = ''t0'',
             errors = [claim_loop_record AttributeError],
             login_status_code = Some 200, login_response = Some login_json,
             info_status_code = Some 200,
             info_response = Some (info_json [tier_rec 5 ''complete'', JStr ''x'']),
             claim_responses = Some [\<lparr> tier = JInt 5, cr_status_code = 200, cr_response = JObj [] \<rparr>],
             claimed_tiers = None \<rparr>" by code_simp
  from claimed_tiers_present_iff_loop_completes [where net=net_bad_tier and L=lib0 and now="''t0''"
      and cred=cred0 and cfg=cfg0 and ?r1.0="?r1", OF h0 h1 h2] h0 h1 h4
  show ?thesis by blast
qed

section \<open>The login payload\<close>

text \<open>
  C10: every run sends exactly one login request, and its payload carries the
  phone and, as password, the MD5 hex digest of the password base followed by the
  code of the account.
\<close>

theorem login_payload_is_digest_of_base_then_code:
  "map (\<lambda>c. payload (fst c))
       (filter (\<lambda>c. url (fst c) = LOGIN) (calls (snd (run L net now cred cfg))))
   = [JObj [(''phone'', JStr (cred_phone cred)),
            (''password'', JStr (md5_hexdigest L (password cfg @ cred_code cred)))]]"
proof (cases rule: run_cases [of net])
  case rejected
  show ?thesis
  proof (rule run_rejected_facts [where net=net and L=L and now=now and cred=cred and cfg=cfg, OF rejected])
    fix res s ca
    assume "run L net now cred cfg = (Inr res, s)"
      "calls s = [ca]" "url (fst ca) = LOGIN"
      "payload (fst ca) = JObj [(''phone'', JStr (cred_phone cred)),
          (''password'', JStr (md5_hexdigest L (password cfg @ cred_code cred)))]"
    then show ?thesis by simp
  qed
next
  case info_failed
  show ?thesis
  proof (rule run_info_failed_facts [where net=net and L=L and now=now and cred=cred and cfg=cfg, OF info_failed])
    fix res s ca cb
    assume "run L net now cred cfg = (Inr res, s)"
      "calls s = [ca, cb]" "url (fst ca) = LOGIN" "url (fst cb) = DAILY_INFO"
      "payload (fst ca) = JObj [(''phone'', JStr (cred_phone cred)),
          (''password'', JStr (md5_hexdigest L (password cfg @ cred_code cred)))]"
    then show ?thesis by (simp add: urls_distinct)
  qed
next
  case (stage3 r1)
  show ?thesis
  proof (rule run_stage3 [where net=net and L=L and now=now and cred=cred and cfg=cfg, OF stage3])
    fix res s new es tail ca cb
    assume run: "run L net now cred cfg = (Inr res, s)"
      and calls: "calls s = ca # cb # new" "url (fst ca) = LOGIN" "url (fst cb) = DAILY_INFO"
      and pl: "payload (fst ca) = JObj [(''phone'', JStr (cred_phone cred)),
          (''password'', JStr (md5_hexdigest L (password cfg @ cred_code cred)))]"
      and tiers: "case tiers_of (decoded_body r1) of
         Inl e \<Rightarrow> new = [] \<and> tail = [claim_loop_record e] \<and> claimed_tiers res = None
       | Inr tiers \<Rightarrow>
           prefix (map (\<lambda>c. (url (fst c), payload (fst c))) new)
             (map (\<lambda>t. (DAILY_CLAIM, claim_payload (tier_num t))) (filter tier_complete tiers))
           \<and> ((tail = [] \<and> claimed_tiers res = Some (claimed_nums new) \<and> list_all is_dict tiers
                \<and> length new = length (filter tier_complete tiers))
              \<or> (\<exists>e. tail = [claim_loop_record e] \<and> claimed_tiers res = None))"
    have urls: "\<forall>c \<in> set new. url (fst c) = DAILY_CLAIM"
      using tiers prefix_claim_urls by (cases "tiers_of (decoded_body r1)") auto
    then have "filter (\<lambda>c. url (fst c) = LOGIN) new = []"
      by (simp add: filter_empty_conv urls_distinct [symmetric])
    with run calls pl show ?thesis by (simp add: urls_distinct)
  qed
qed

section \<open>One outcome per account\<close>

text \<open>
  C4: the pipeline function always returns an outcome and never raises. When
  every future is handed out once, that is, the completion order is a permutation
  of the positions of the credential list, the orchestrator collects the outcomes
  of the accounts in that order, one per account.
\<close>

theorem one_outcome_per_account:
  "(\<exists>res. login_and_claim L net now cred cfg = Inr res)
   \<and> (mset order = mset [0..<length credentials] \<longrightarrow>
        (\<exists>rs. main L world cfg order credentials = Inr rs
           \<and> length rs = length credentials
           \<and> map Inr rs =
               map (\<lambda>i. login_and_claim L (fst (world i)) (snd (world i)) (credentials ! i) cfg)
                   order))"
proof
  show "\<exists>res. login_and_claim L net now cred cfg = Inr res"
    by (rule login_and_claim_returns)
next
  show "mset order = mset [0..<length credentials] \<longrightarrow>
        (\<exists>rs. main L world cfg order credentials = Inr rs
           \<and> length rs = length credentials
           \<and> map Inr rs =
               map (\<lambda>i. login_and_claim L (fst (world i)) (snd (world i)) (credentials ! i) cfg)
                   order)"
  proof
    assume perm: "mset order = mset [0..<length credentials]"
    from perm have "length order = length [0..<length credentials]" by (rule mset_eq_length)
    then have len: "length order = length credentials" by simp
    from perm have "set order = set [0..<length credentials]" by (rule mset_eq_setD)
    then have bound: "\<And>i. i \<in> set order \<Longrightarrow> i < length credentials" by simp
    let ?f = "\<lambda>i. login_and_claim L (fst (world i)) (snd (world i)) (credentials ! i) cfg"
    let ?futs = "map (\<lambda>(i, c). login_and_claim L (fst (world i)) (snd (world i)) c cfg)
                   (enumerate 0 credentials)"
    have nth: "?futs ! i = ?f i" if "i < length credentials" for i
      using that by (simp add: nth_enumerate_eq)
    have comp: "as_completed order ?futs = map ?f order"
      unfolding as_completed_def
    proof (rule map_cong [OF refl])
      fix i assume "i \<in> set order"
      then show "?futs ! i = ?f i" by (intro nth bound)
    qed
    have all: "\<forall>f \<in> set (map ?f order). \<exists>res. f = Inr res"
    proof
      fix f assume "f \<in> set (map ?f order)"
      then obtain i where "f = ?f i" by auto
      then show "\<exists>res. f = Inr res" using login_and_claim_returns by simp
    qed
    from collect_all [OF all, of "[]"] obtain rs
      where rs: "collect (map ?f order) [] = Inr rs" "map Inr rs = map ?f order" by auto
    from rs(2) have "length (map (Inr :: outcome \<Rightarrow> exn + outcome) rs) = length (map ?f order)" by simp
    then have "length rs = length order" by simp
    with rs len comp show "\<exists>rs. main L world cfg order credentials = Inr rs
           \<and> length rs = length credentials \<and> map Inr rs = map ?f order"
      by (intro exI [of _ rs]) (simp add: main_def)
  qed
qed

text \<open>
  An instance of C4: two accounts, the second finishing first.
\<close>

theorem one_outcome_per_account_witness:
  "mset [1, 0] = mset [0..<length [cred0, cred1]]
   \<and> (\<exists>rs. main lib0 world0 cfg0 [1, 0] [cred0, cred1] = Inr rs
         \<and> length rs = length [cred0, cred1]
         \<and> map Inr rs =
               map (\<lambda>i. login_and_claim lib0 (fst (world0 i)) (snd (world0 i)) ([cred0, cred1] ! i) cfg0)
                   [1, 0])
   \<and> map phone (projr (main lib0 world0 cfg0 [1, 0] [cred0, cred1]))
       = [''09291078442'', ''09582811870'']"
proof -
  have h: "mset [1, 0] = mset [0..<length [cred0, cred1]]"
    by (simp add: upt_rec)
  have v: "map phone (projr (main lib0 world0 cfg0 [1, 0] [cred0, cred1]))
       = [''09291078442'', ''09582811870'']" by code_simp
  from one_outcome_per_account [of lib0 "script []" "''t0''" cred0 cfg0 "[1, 0]" "[cred0, cred1]" world0] h v
  show ?thesis by blast
qed

end
